theory Spec2Isabelle
  imports Main
begin

section \<open>JavaScript values and the operations the handlers apply to them\<close>

text \<open>
  The handlers of \<^verbatim>\<open>server.js\<close> read the fields of \<^verbatim>\<open>req.body\<close>, the request's JSON
  body parsed by \<^verbatim>\<open>express.json()\<close>. A field holds any JSON value, and a field that the
  body does not have reads as \<^verbatim>\<open>undefined\<close>. The handlers only ask whether a number
  is zero and whether a value is a number, and \<^verbatim>\<open>escapeId\<close> prints it with
  \<^verbatim>\<open>String\<close>. \<open>JNum n\<close> is the integer \<open>n\<close>, of magnitude below two to the power 53,
  which \<^verbatim>\<open>String\<close> prints in decimal digits; \<open>JReal s\<close> is any other number (one with
  a fraction, or of a larger magnitude, so never zero), given by the text \<open>s\<close> that
  \<^verbatim>\<open>String\<close> prints for it, such as \<^verbatim>\<open>1.5\<close> or \<^verbatim>\<open>1e+21\<close>. \<open>JObj kvs\<close> lists the
  own properties of an object in the order in which \<^verbatim>\<open>Object.keys\<close>,
  \<^verbatim>\<open>Object.values\<close> and \<^verbatim>\<open>Object.entries\<close> enumerate them; the keys of an object
  are distinct.
\<close>

datatype jv =
    Undefined
  | JNull
  | JBool bool
  | JNum int
  | JReal string
  | JStr string
  | JArr "jv list"
  | JObj "(string \<times> jv) list"

text \<open>Truthiness, as \<^verbatim>\<open>if (x)\<close>, \<^verbatim>\<open>!x\<close>, \<^verbatim>\<open>x && y\<close> and \<^verbatim>\<open>x || y\<close> test it.\<close>

fun truthy :: "jv \<Rightarrow> bool" where
  "truthy Undefined = False"
| "truthy JNull = False"
| "truthy (JBool b) = b"
| "truthy (JNum n) = (n \<noteq> 0)"
| "truthy (JReal s) = True"
| "truthy (JStr s) = (s \<noteq> [])"
| "truthy (JArr xs) = True"
| "truthy (JObj kvs) = True"

text \<open>\<^verbatim>\<open>typeof x === 'number'\<close>, \<^verbatim>\<open>typeof x === 'string'\<close>, \<^verbatim>\<open>typeof x === 'object'\<close>
  (which holds of \<^verbatim>\<open>null\<close> and of arrays too) and \<^verbatim>\<open>Array.isArray(x)\<close>.\<close>

fun typeof_number :: "jv \<Rightarrow> bool" where
  "typeof_number (JNum n) = True"
| "typeof_number (JReal s) = True"
| "typeof_number v = False"

fun typeof_string :: "jv \<Rightarrow> bool" where
  "typeof_string (JStr s) = True"
| "typeof_string v = False"

fun typeof_object :: "jv \<Rightarrow> bool" where
  "typeof_object JNull = True"
| "typeof_object (JArr xs) = True"
| "typeof_object (JObj kvs) = True"
| "typeof_object v = False"

fun isArray :: "jv \<Rightarrow> bool" where
  "isArray (JArr xs) = True"
| "isArray v = False"

text \<open>\<^verbatim>\<open>x || y\<close> on values.\<close>

definition or_else :: "jv \<Rightarrow> jv \<Rightarrow> jv" where
  "or_else x y = (if truthy x then x else y)"

text \<open>Decimal digits of an index or of an integer, as \<^verbatim>\<open>String(n)\<close> prints them.\<close>

definition digit :: "nat \<Rightarrow> char" where
  "digit d = ''0123456789'' ! d"

function show_nat :: "nat \<Rightarrow> string" where
  "show_nat n = (if n < 10 then [digit n] else show_nat (n div 10) @ [digit (n mod 10)])"
  by pat_completeness auto
termination
  by (relation "measure id") auto

definition show_int :: "int \<Rightarrow> string" where
  "show_int i = (if i < 0 then CHR ''-'' # show_nat (nat (- i)) else show_nat (nat i))"

text \<open>
  \<^verbatim>\<open>Object.entries(x)\<close> of a value that is neither \<^verbatim>\<open>null\<close> nor \<^verbatim>\<open>undefined\<close>: the
  properties of an object, the indexed elements of an array, the indexed characters of a
  string, nothing for a number or a boolean. On \<^verbatim>\<open>null\<close> and \<^verbatim>\<open>undefined\<close> JavaScript
  throws; every handler tests the value for truthiness first, so these two equations are
  never reached.
\<close>

definition indexed :: "jv list \<Rightarrow> (string \<times> jv) list" where
  "indexed xs = zip (map show_nat [0 ..< length xs]) xs"

fun entries :: "jv \<Rightarrow> (string \<times> jv) list" where
  "entries (JObj kvs) = kvs"
| "entries (JArr xs) = indexed xs"
| "entries (JStr s) = indexed (map (\<lambda>c. JStr [c]) s)"
| "entries v = []"

definition keys :: "jv \<Rightarrow> string list" where
  "keys v = map fst (entries v)"

definition object_values :: "jv \<Rightarrow> jv list" where
  "object_values v = map snd (entries v)"

text \<open>
  Reading a named property, \<^verbatim>\<open>x.k\<close> or the destructuring \<^verbatim>\<open>const { k } = x\<close>. The
  handlers read \<^verbatim>\<open>_id\<close>, \<^verbatim>\<open>operator\<close>, \<^verbatim>\<open>fieldName\<close>, \<^verbatim>\<open>value\<close> and \<^verbatim>\<open>order\<close>
  this way, names that only an object can have.
\<close>

fun lookup :: "(string \<times> jv) list \<Rightarrow> string \<Rightarrow> jv" where
  "lookup [] k = Undefined"
| "lookup ((k', v) # kvs) k = (if k' = k then v else lookup kvs k)"

fun property :: "jv \<Rightarrow> string \<Rightarrow> jv" where
  "property (JObj kvs) k = lookup kvs k"
| "property v k = Undefined"

text \<open>\<^verbatim>\<open>xs.join(sep)\<close> on an array of strings.\<close>

fun join :: "string \<Rightarrow> string list \<Rightarrow> string" where
  "join sep [] = []"
| "join sep [x] = x"
| "join sep (x # y # ys) = x @ sep @ join sep (y # ys)"

section \<open>Identifier escaping\<close>

text \<open>
  \<^verbatim>\<open>mysql.escapeId\<close> belongs to the \<^verbatim>\<open>mysql2\<close> package (it is \<^verbatim>\<open>SqlString.escapeId\<close>
  of \<^verbatim>\<open>sqlstring\<close>), not to this repository. Called with one argument it escapes every
  element of an array and joins them with a comma and a space; any other value is
  converted with \<^verbatim>\<open>String(val)\<close>, every backtick is doubled, every dot becomes
  backtick-dot-backtick, and the result is put between backticks. \<open>quoteId\<close> is what it
  does to the text of a value.
\<close>

definition replaceAll :: "char \<Rightarrow> string \<Rightarrow> string \<Rightarrow> string" where
  "replaceAll c r s = concat (map (\<lambda>x. if x = c then r else [x]) s)"

definition quoteId :: "string \<Rightarrow> string" where
  "quoteId s = ''`'' @ replaceAll (CHR ''.'') ''`.`'' (replaceAll (CHR ''`'') ''``'' s) @ ''`''"

text \<open>
  \<^verbatim>\<open>String(val)\<close>, where \<open>None\<close> is a TypeError. An object is converted by its
  \<^verbatim>\<open>toString\<close> method: an object of a JSON body inherits the one that returns
  \<^verbatim>\<open>[object Object]\<close>, unless it has a key \<^verbatim>\<open>toString\<close> of its own, whose value cannot
  be called; then the conversion throws. An array prints its elements separated by
  commas, with nothing for \<^verbatim>\<open>null\<close> and \<^verbatim>\<open>undefined\<close>, and throws when the conversion of
  an element throws.
\<close>

fun js_String :: "jv \<Rightarrow> string option" where
  "js_String Undefined = Some ''undefined''"
| "js_String JNull = Some ''null''"
| "js_String (JBool b) = Some (if b then ''true'' else ''false'')"
| "js_String (JNum n) = Some (show_int n)"
| "js_String (JReal s) = Some s"
| "js_String (JStr s) = Some s"
| "js_String (JArr xs) =
     map_option (join '','')
       (those (map (\<lambda>x. if x = Undefined \<or> x = JNull then Some [] else js_String x) xs))"
| "js_String (JObj kvs) =
     (if ''toString'' \<in> set (map fst kvs) then None else Some ''[object Object]'')"

text \<open>\<^verbatim>\<open>mysql.escapeId(val)\<close>, where \<open>None\<close> is the TypeError of \<^verbatim>\<open>String(val)\<close>. On a
  string it cannot throw and returns \<open>quoteId\<close> of the string; the calls on the keys of
  an object, which are strings, are written \<open>quoteId key\<close> in the handlers below.\<close>

fun escapeId :: "jv \<Rightarrow> string option" where
  "escapeId (JArr xs) = map_option (join '', '') (those (map escapeId xs))"
| "escapeId v = map_option quoteId (js_String v)"

section \<open>Requests and what a handler does with them\<close>

text \<open>
  The fields of \<^verbatim>\<open>req.body\<close> that the handlers destructure. \<open>filter'\<close> is the field
  \<^verbatim>\<open>filter\<close>. The field \<^verbatim>\<open>sort\<close> is absent or an array, as the protocol sends it
  (\<open>sort'\<close>): on any other value the test \<^verbatim>\<open>sort.length > 0\<close> would depend on
  JavaScript's conversions to numbers, which are not modelled.
\<close>

record body =
  collectionName :: jv
  table :: jv
  filter' :: jv
  sort' :: "jv list option"
  skip :: jv
  limit :: jv
  offset :: jv
  item :: jv
  data :: jv
  itemId :: jv
  schemaIds :: jv

definition empty_body :: body where
  "empty_body = \<lparr>collectionName = Undefined, table = Undefined, filter' = Undefined,
     sort' = None, skip = Undefined, limit = Undefined, offset = Undefined,
     item = Undefined, data = Undefined, itemId = Undefined, schemaIds = Undefined\<rparr>"

text \<open>
  The messages of the error responses \<^verbatim>\<open>{ error: ... }\<close>. The source's texts are
  Portuguese; in ASCII they read:
  \<^item> \<open>CollectionNameRequired\<close>: "Nome da colecao e obrigatorio";
  \<^item> \<open>CollectionNameNotString\<close>: "Nome da colecao e obrigatorio e deve ser uma string.";
  \<^item> \<open>InsertDataRequired\<close>: "Os dados a serem inseridos sao obrigatorios e devem ser um
    objeto nao vazio.";
  \<^item> \<open>InvalidFilterOperator\<close>: "Operador de filtro invalido";
  \<^item> \<open>HasSomeNeedsArray\<close>: "O valor do filtro deve ser um array para o operador $hasSome";
  \<^item> \<open>InvalidItemOrMissingId\<close>: "Item invalido ou ID ausente";
  \<^item> \<open>NoFieldsToUpdate\<close>: "Nenhum campo para atualizar";
  \<^item> \<open>ItemIdRequired\<close>: "ID do item e obrigatorio";
  \<^item> \<open>SchemaIdsMissing\<close>: "Lista de schemaIds nao fornecida ou vazia";
  \<^item> \<open>InternalError\<close>: "Erro interno do servidor".
\<close>

datatype message =
    CollectionNameRequired
  | CollectionNameNotString
  | InsertDataRequired
  | InvalidFilterOperator
  | HasSomeNeedsArray
  | InvalidItemOrMissingId
  | NoFieldsToUpdate
  | ItemIdRequired
  | SchemaIdsMissing
  | InternalError

text \<open>
  Every route runs the middleware \<^verbatim>\<open>validateSecretKey\<close> first, which answers 403 unless
  the body carries the configured secret; the models describe a handler once that check
  has passed. A handler of the structured CRUD surface validates the body and builds one
  statement. Its model returns what it does next: \<open>Reject status msg\<close> is the early
  \<^verbatim>\<open>return res.status(status).json({ error: msg })\<close> (or the \<^verbatim>\<open>catch\<close> block's
  response, when building the statement throws), and \<open>Execute sql params\<close> is the call
  \<^verbatim>\<open>executeQuery(sql, params)\<close>.
\<close>

datatype plan = Reject nat message | Execute string "jv list"

section \<open>The handler of /api/query/data/insert\<close>

text \<open>
  The loop \<^verbatim>\<open>for (const [key, value] of Object.entries(payload))\<close> pushes onto the three
  arrays \<^verbatim>\<open>fields\<close> (\<open>fieldList\<close>), \<^verbatim>\<open>placeholders\<close> and \<^verbatim>\<open>values\<close> (\<open>vals\<close>); the
  triple is the loop's state.
\<close>

fun insert_loop :: "(string \<times> jv) list \<Rightarrow> string list \<times> string list \<times> jv list
    \<Rightarrow> string list \<times> string list \<times> jv list" where
  "insert_loop [] acc = acc"
| "insert_loop ((key, value) # rest) (fieldList, placeholders, vals) =
     insert_loop rest (fieldList @ [quoteId key], placeholders @ [''?''], vals @ [value])"

text \<open>
  In every handler a TypeError of \<^verbatim>\<open>mysql.escapeId\<close> is caught by the handler's
  \<^verbatim>\<open>catch\<close> block, which answers 500 with the internal-error message.
\<close>

definition post_data_insert :: "body \<Rightarrow> plan" where
  "post_data_insert b =
    (if \<not> truthy (collectionName b) \<or> \<not> typeof_string (collectionName b)
     then Reject 400 CollectionNameNotString
     else
       let payload = or_else (item b) (data b) in
       if \<not> truthy payload \<or> \<not> typeof_object payload \<or> length (keys payload) = 0
       then Reject 400 InsertDataRequired
       else
         case escapeId (collectionName b) of
           None \<Rightarrow> Reject 500 InternalError
         | Some escapedTable \<Rightarrow>
             let (fieldList, placeholders, vals) = insert_loop (entries payload) ([], [], []);
                 sql = ''INSERT INTO '' @ escapedTable @ '' ('' @ join '', '' fieldList
                       @ '') VALUES ('' @ join '', '' placeholders @ '')''
             in Execute sql vals)"

section \<open>The flat filter of /api/items/find, /api/query/data/count and the first data/find\<close>

text \<open>
  \<^verbatim>\<open>Object.entries(filter).map(([key, value]) => `${mysql.escapeId(key)} = ?`).join(' AND ')\<close>
\<close>

definition conditions :: "jv \<Rightarrow> string" where
  "conditions f = join '' AND '' (map (\<lambda>(key, value). quoteId key @ '' = ?'') (entries f))"

definition post_items_find :: "body \<Rightarrow> plan" where
  "post_items_find b =
    (case escapeId (table b) of
       None \<Rightarrow> Reject 500 InternalError
     | Some escapedTable \<Rightarrow>
         let sql = ''SELECT * FROM '' @ escapedTable;
             params = [];
             (sql, params) =
               (if truthy (filter' b)
                then (sql @ '' WHERE '' @ conditions (filter' b),
                      params @ object_values (filter' b))
                else (sql, params));
             (sql, params) =
               (if truthy (limit b) then (sql @ '' LIMIT ?'', params @ [limit b])
                else (sql, params));
             (sql, params) =
               (if truthy (offset b) then (sql @ '' OFFSET ?'', params @ [offset b])
                else (sql, params))
         in Execute sql params)"

definition post_data_count :: "body \<Rightarrow> plan" where
  "post_data_count b =
    (if \<not> truthy (collectionName b) then Reject 400 CollectionNameRequired
     else
       case escapeId (collectionName b) of
         None \<Rightarrow> Reject 500 InternalError
       | Some escapedTable \<Rightarrow>
           let sql = ''SELECT COUNT(*) AS totalCount FROM '' @ escapedTable;
               params = [];
               (sql, params) =
                 (if truthy (filter' b) \<and> length (keys (filter' b)) > 0
                  then (sql @ '' WHERE '' @ conditions (filter' b),
                        params @ object_values (filter' b))
                  else (sql, params))
           in Execute sql params)"

section \<open>Sorting and pagination of data/find\<close>

text \<open>
  The callback of \<^verbatim>\<open>sort.map\<close> destructures \<^verbatim>\<open>{ fieldName, order }\<close> from each entry,
  which throws a TypeError on \<^verbatim>\<open>null\<close> and \<^verbatim>\<open>undefined\<close>, and escapes the field name,
  which can throw too (\<open>None\<close>); the handler's \<^verbatim>\<open>catch\<close> block then answers 500 (in the
  second tree with the error's message as \<^verbatim>\<open>details\<close> beside the same \<^verbatim>\<open>error\<close> text).
\<close>

fun sort_condition :: "jv \<Rightarrow> string option" where
  "sort_condition Undefined = None"
| "sort_condition JNull = None"
| "sort_condition e =
     (let fieldName = property e ''fieldName''; order = property e ''order'' in
      case escapeId fieldName of
        None \<Rightarrow> None
      | Some escapedField \<Rightarrow>
          Some (escapedField @ '' '' @ (if order = JStr ''ASC'' then ''ASC'' else ''DESC'')))"

text \<open>The text that the block \<^verbatim>\<open>if (sort && sort.length > 0)\<close> appends to \<^verbatim>\<open>sql\<close>.\<close>

definition order_by :: "jv list option \<Rightarrow> string option" where
  "order_by s =
    (case s of
       None \<Rightarrow> Some []
     | Some es \<Rightarrow>
         if length es > 0
         then (case those (map sort_condition es) of
                 None \<Rightarrow> None
               | Some sortConditions \<Rightarrow> Some ('' ORDER BY '' @ join '', '' sortConditions))
         else Some [])"

text \<open>
  The ORDER BY token of one sort entry as the specification describes it, for an entry
  whose escaped field name is \<open>escapedField\<close>, with the direction read from the entry's
  property \<^verbatim>\<open>order\<close>: ascending for the string \<^verbatim>\<open>ASC\<close>, descending for anything else.
\<close>

definition order_token :: "string \<Rightarrow> jv \<Rightarrow> string" where
  "order_token escapedField e =
     escapedField @ (if property e ''order'' = JStr ''ASC'' then '' ASC'' else '' DESC'')"

text \<open>The block \<^verbatim>\<open>if (typeof skip === 'number' && typeof limit === 'number')\<close>.\<close>

definition paginate :: "body \<Rightarrow> string \<times> jv list \<Rightarrow> string \<times> jv list" where
  "paginate b q =
    (case q of (sql, params) \<Rightarrow>
       if typeof_number (skip b) \<and> typeof_number (limit b)
       then (sql @ '' LIMIT ?, ?'', params @ [skip b, limit b])
       else (sql, params))"

section \<open>The two handlers of /api/query/data/find\<close>

text \<open>
  The repository holds two trees. The handler in \<^verbatim>\<open>WIX - HOSTINGER - 1.0/server.js\<close>
  (\<open>post_data_find_v1\<close>) reads the filter as a flat mapping. The handler of the other
  \<^verbatim>\<open>server.js\<close> (\<open>post_data_find\<close>) reads it as one clause
  \<^verbatim>\<open>{ operator, fieldName, value }\<close>; the same file has the handlers of data/update and
  data/remove. The handlers of items/find, data/count and data/insert are the same text in
  both trees.
\<close>

definition post_data_find_v1 :: "body \<Rightarrow> plan" where
  "post_data_find_v1 b =
    (if \<not> truthy (collectionName b) then Reject 400 CollectionNameRequired
     else
       case escapeId (collectionName b) of
         None \<Rightarrow> Reject 500 InternalError
       | Some escapedTable \<Rightarrow>
           let sql = ''SELECT * FROM '' @ escapedTable;
               params = [];
               (sql, params) =
                 (if truthy (filter' b) \<and> length (keys (filter' b)) > 0
                  then (sql @ '' WHERE '' @ conditions (filter' b),
                        params @ object_values (filter' b))
                  else (sql, params))
           in case order_by (sort' b) of
                None \<Rightarrow> Reject 500 InternalError
              | Some orderBy \<Rightarrow>
                  (case paginate b (sql @ orderBy, params) of
                     (sql, params) \<Rightarrow> Execute sql params))"

text \<open>
  The filter block of the second handler: \<open>Inl\<close> is a response that ends the request, the
  early \<^verbatim>\<open>return res.status(400)\<close> or the 500 of the \<^verbatim>\<open>catch\<close> block when
  \<^verbatim>\<open>mysql.escapeId(fieldName)\<close> throws; \<open>Inr\<close> is the text appended to \<^verbatim>\<open>sql\<close> and the
  values pushed onto \<^verbatim>\<open>params\<close>.
\<close>

definition where_clause :: "jv \<Rightarrow> nat \<times> message + string \<times> jv list" where
  "where_clause f =
    (if truthy f \<and> length (keys f) > 0
     then
       let operator = property f ''operator'';
           fieldName = property f ''fieldName'';
           value = property f ''value''
       in if operator \<notin> set [JStr ''$hasSome'', JStr ''$eq'']
          then Inl (400, InvalidFilterOperator)
          else if operator = JStr ''$hasSome''
          then (case value of
                  JArr vs \<Rightarrow>
                    let placeholders = join '','' (map (\<lambda>_. ''?'') vs)
                    in (case escapeId fieldName of
                          None \<Rightarrow> Inl (500, InternalError)
                        | Some escapedField \<Rightarrow>
                            Inr ('' WHERE '' @ escapedField @ '' IN ('' @ placeholders @ '')'', vs))
                | _ \<Rightarrow> Inl (400, HasSomeNeedsArray))
          else if operator = JStr ''$eq''
          then (case escapeId fieldName of
                  None \<Rightarrow> Inl (500, InternalError)
                | Some escapedField \<Rightarrow> Inr ('' WHERE '' @ escapedField @ '' = ?'', [value]))
          else Inr ([], [])
     else Inr ([], []))"

definition post_data_find :: "body \<Rightarrow> plan" where
  "post_data_find b =
    (if \<not> truthy (collectionName b) then Reject 400 CollectionNameRequired
     else
       case escapeId (collectionName b) of
         None \<Rightarrow> Reject 500 InternalError
       | Some escapedTable \<Rightarrow>
           let sql = ''SELECT * FROM '' @ escapedTable
           in case where_clause (filter' b) of
                Inl (status, msg) \<Rightarrow> Reject status msg
              | Inr (condition, params) \<Rightarrow>
                  (case order_by (sort' b) of
                     None \<Rightarrow> Reject 500 InternalError
                   | Some orderBy \<Rightarrow>
                       (case paginate b (sql @ condition @ orderBy, params) of
                          (sql, params) \<Rightarrow> Execute sql params)))"

text \<open>The second statement of data/find, run with no parameters when
  \<^verbatim>\<open>returnTotalCount\<close> is set, built from the table name that the handler escaped at its
  start (\<open>None\<close> when that threw, and the handler never came this far).\<close>

definition countSql :: "body \<Rightarrow> string option" where
  "countSql b =
    map_option (\<lambda>escapedTable. ''SELECT COUNT(*) AS totalCount FROM '' @ escapedTable)
      (escapeId (collectionName b))"

section \<open>The handlers of /api/query/data/update and /api/query/data/remove\<close>

text \<open>\<^verbatim>\<open>xs.indexOf(k)\<close>, which is \<open>-1\<close> when \<open>k\<close> does not occur, and
  \<^verbatim>\<open>xs.filter((_, index) => index !== i)\<close>.\<close>

fun indexOf :: "string list \<Rightarrow> string \<Rightarrow> int" where
  "indexOf [] k = - 1"
| "indexOf (x # xs) k =
     (if x = k then 0 else (let i = indexOf xs k in if i < 0 then - 1 else i + 1))"

definition without_index :: "int \<Rightarrow> jv list \<Rightarrow> jv list" where
  "without_index i xs = map snd (filter (\<lambda>(index, x). int index \<noteq> i) (enumerate 0 xs))"

definition post_data_update :: "body \<Rightarrow> plan" where
  "post_data_update b =
    (if \<not> truthy (collectionName b) then Reject 400 CollectionNameRequired
     else if \<not> truthy (item b) \<or> \<not> truthy (property (item b) ''_id'')
     then Reject 400 InvalidItemOrMissingId
     else
       case escapeId (collectionName b) of
         None \<Rightarrow> Reject 500 InternalError
       | Some escapedTable \<Rightarrow>
           let updateFields =
                 join '', '' (map (\<lambda>key. quoteId key @ '' = ?'')
                                (filter (\<lambda>key. key \<noteq> ''_id'') (keys (item b))))
           in if updateFields = []
              then Reject 400 NoFieldsToUpdate
              else
                let sql = ''UPDATE '' @ escapedTable @ '' SET '' @ updateFields
                          @ '' WHERE _id = ?'';
                    params = without_index (indexOf (keys (item b)) ''_id'')
                                           (object_values (item b))
                             @ [property (item b) ''_id'']
                in Execute sql params)"

definition post_data_remove :: "body \<Rightarrow> plan" where
  "post_data_remove b =
    (if \<not> truthy (collectionName b) then Reject 400 CollectionNameRequired
     else if \<not> truthy (itemId b) then Reject 400 ItemIdRequired
     else
       case escapeId (collectionName b) of
         None \<Rightarrow> Reject 500 InternalError
       | Some escapedTable \<Rightarrow>
           let sql = ''DELETE FROM '' @ escapedTable @ '' WHERE _id = ?'';
               params = [itemId b]
           in Execute sql params)"

section \<open>The query executor\<close>

text \<open>
  \<^verbatim>\<open>executeQuery\<close> calls \<^verbatim>\<open>getConnection\<close> (of \<^verbatim>\<open>mysqlConnector.js\<close>, which is not
  among the source files), \<^verbatim>\<open>connection.execute\<close> and \<^verbatim>\<open>connection.end\<close>. How these
  three answer is the outside world of one call: each either fails with an error or
  succeeds, \<^verbatim>\<open>getConnection\<close> with a connection (numbered, to tell connections apart) and
  \<^verbatim>\<open>execute\<close> with the value \<^verbatim>\<open>rows\<close> that the handler destructures from its result.
\<close>

type_synonym error = string

record outside =
  getConnection :: "error + nat"
  execute :: "nat \<Rightarrow> string \<Rightarrow> jv list \<Rightarrow> error + jv"
  connection_end :: "nat \<Rightarrow> error option"

text \<open>
  What a call does besides returning: the calls on the connection and the lines written
  to the console, in order. The console texts are Portuguese in the source
  ("Conexao estabelecida com o banco de dados.", "Executando consulta:", "Parametros:",
  "Resultados brutos:", "Erro ao executar consulta:", "Conexao fechada.",
  "Erro ao fechar conexao:").
\<close>

datatype console_line =
    ConnectionEstablished
  | ExecutingQuery string
  | Parameters "jv list"
  | RawResults jv
  | QueryFailed error
  | ConnectionClosed
  | CloseFailed error

datatype event =
    CallExecute nat string "jv list"
  | CallEnd nat
  | Console console_line

text \<open>
  The result is \<open>Inl err\<close> when the call throws \<open>err\<close> and \<open>Inr rows\<close> when it returns. The
  \<^verbatim>\<open>catch\<close> block logs and rethrows; the \<^verbatim>\<open>finally\<close> block runs on both paths, calls
  \<^verbatim>\<open>connection.end()\<close> if a connection was obtained, and only logs an error of that call.
\<close>

definition executeQuery :: "outside \<Rightarrow> string \<Rightarrow> jv list \<Rightarrow> (error + jv) \<times> event list" where
  "executeQuery w query binds =
    (case getConnection w of
       Inl err \<Rightarrow> (Inl err, [Console (QueryFailed err)])
     | Inr connection \<Rightarrow>
         let started = [Console ConnectionEstablished, Console (ExecutingQuery query),
                        Console (Parameters binds), CallExecute connection query binds];
             (result, tried) =
               (case execute w connection query binds of
                  Inl err \<Rightarrow> (Inl err, [Console (QueryFailed err)])
                | Inr rows \<Rightarrow> (Inr (or_else rows (JArr [])), [Console (RawResults rows)]));
             finally_block =
               CallEnd connection #
               (case connection_end w connection of
                  Some err \<Rightarrow> [Console (CloseFailed err)]
                | None \<Rightarrow> [Console ConnectionClosed])
         in (result, started @ tried @ finally_block))"

text \<open>The connections on which \<^verbatim>\<open>end()\<close> was called, in the order of the calls.\<close>

fun ended :: "event list \<Rightarrow> nat list" where
  "ended [] = []"
| "ended (CallEnd c # es) = c # ended es"
| "ended (e # es) = ended es"

text \<open>An outside world in which the statement fails and closing the connection fails too.\<close>

definition failing_outside :: outside where
  "failing_outside =
    \<lparr>getConnection = Inr 3,
     execute = (\<lambda>connection query binds. Inl ''ER_PARSE_ERROR''),
     connection_end = (\<lambda>connection. Some ''ECONNRESET'')\<rparr>"

section \<open>Schema mapping\<close>

text \<open>\<^verbatim>\<open>s.includes(sub)\<close> and \<^verbatim>\<open>s.toLowerCase()\<close> (on the letters A to Z; the type names of
  MySQL are ASCII).\<close>

fun startsWith :: "string \<Rightarrow> string \<Rightarrow> bool" where
  "startsWith s [] = True"
| "startsWith [] (c # cs) = False"
| "startsWith (x # xs) (c # cs) = (x = c \<and> startsWith xs cs)"

fun js_includes :: "string \<Rightarrow> string \<Rightarrow> bool" where
  "js_includes [] sub = (sub = [])"
| "js_includes (x # xs) sub = (startsWith (x # xs) sub \<or> js_includes xs sub)"

definition lower_char :: "char \<Rightarrow> char" where
  "lower_char c =
    (case map_of (zip ''ABCDEFGHIJKLMNOPQRSTUVWXYZ'' ''abcdefghijklmnopqrstuvwxyz'') c of
       Some l \<Rightarrow> l
     | None \<Rightarrow> c)"

definition toLowerCase :: "string \<Rightarrow> string" where
  "toLowerCase s = map lower_char s"

text \<open>
  \<^verbatim>\<open>server.js\<close> declares \<^verbatim>\<open>function mapMySQLTypeToWixType\<close> twice. Function
  declarations are hoisted and the later one replaces the earlier, so both schema
  handlers call the second declaration, the one modelled here.
\<close>

definition mapMySQLTypeToWixType :: "string \<Rightarrow> string" where
  "mapMySQLTypeToWixType t =
    (let mysqlType = toLowerCase t in
     if js_includes mysqlType ''int'' then ''number''
     else if js_includes mysqlType ''varchar'' \<or> js_includes mysqlType ''text''
             \<or> js_includes mysqlType ''char'' then ''text''
     else if js_includes mysqlType ''date'' \<or> js_includes mysqlType ''time''
             \<or> js_includes mysqlType ''datetime'' then ''datetime''
     else if js_includes mysqlType ''float'' \<or> js_includes mysqlType ''double''
             \<or> js_includes mysqlType ''decimal'' then ''number''
     else if js_includes mysqlType ''bool'' then ''boolean''
     else ''any'')"

text \<open>\<^verbatim>\<open>fields[k] = v\<close>: the property is replaced where it is, or added after the others.\<close>

fun assign :: "(string \<times> jv) list \<Rightarrow> string \<Rightarrow> jv \<Rightarrow> (string \<times> jv) list" where
  "assign [] k v = [(k, v)]"
| "assign ((k', v') # kvs) k v = (if k' = k then (k, v) # kvs else (k', v') # assign kvs k v)"

definition text_operators :: "jv" where
  "text_operators = JArr (map JStr [''eq'', ''lt'', ''gt'', ''hasSome'', ''and'', ''lte'', ''gte'',
     ''or'', ''not'', ''ne'', ''startsWith'', ''endsWith''])"

definition other_operators :: "jv" where
  "other_operators = JArr (map JStr [''eq'', ''lt'', ''gt'', ''hasSome'', ''and'', ''lte'', ''gte'',
     ''or'', ''not'', ''ne''])"

text \<open>
  The body of the column loop of /api/query/schemas/list, on the \<^verbatim>\<open>fields\<close> object built
  so far. \<open>None\<close> is a TypeError: reading a property of \<^verbatim>\<open>null\<close> or \<^verbatim>\<open>undefined\<close>,
  calling \<^verbatim>\<open>toLowerCase\<close> on a \<^verbatim>\<open>Type\<close> that is truthy and not a string, or
  converting to a property key a field name that \<^verbatim>\<open>String\<close> cannot convert.
\<close>

definition list_column :: "(string \<times> jv) list \<Rightarrow> jv \<Rightarrow> (string \<times> jv) list option" where
  "list_column fieldsObj column =
    (if column = Undefined \<or> column = JNull then None
     else
       let fieldName = or_else (property column ''Field'') (JStr []) in
       case or_else (property column ''Type'') (JStr []) of
         JStr t \<Rightarrow>
           let fieldType = mapMySQLTypeToWixType t;
               isRequired = (property column ''Null'' = JStr ''NO'');
               isUnique = (property column ''Key'' = JStr ''PRI''
                           \<or> property column ''Key'' = JStr ''UNI'');
               queryOperators = (if fieldType = ''text'' then text_operators
                                 else if fieldType = ''number'' then other_operators
                                 else if fieldType = ''datetime'' then other_operators
                                 else other_operators);
               finalFieldName = (if property column ''Key'' = JStr ''PRI''
                                 then JStr ''_id'' else fieldName)
           in (case js_String finalFieldName of
                 None \<Rightarrow> None
               | Some key \<Rightarrow>
                   Some (assign fieldsObj key
                      (JObj [(''displayName'', fieldName), (''type'', JStr fieldType),
                             (''required'', JBool isRequired), (''unique'', JBool isUnique),
                             (''queryOperators'', queryOperators)])))
       | _ \<Rightarrow> None)"

text \<open>The body of the column loop of /api/query/schemas/find.\<close>

definition find_column :: "(string \<times> jv) list \<Rightarrow> jv \<Rightarrow> (string \<times> jv) list option" where
  "find_column fieldsObj column =
    (if column = Undefined \<or> column = JNull then None
     else
       let fieldName = or_else (property column ''Field'') (JStr []) in
       case or_else (property column ''Type'') (JStr []) of
         JStr t \<Rightarrow>
           let fieldType = mapMySQLTypeToWixType t;
               isRequired = (property column ''Null'' = JStr ''NO'')
           in (case js_String fieldName of
                 None \<Rightarrow> None
               | Some key \<Rightarrow>
                   Some (assign fieldsObj key
                      (JObj [(''displayName'', fieldName), (''type'', JStr fieldType),
                             (''queryOperators'', text_operators),
                             (''required'', JBool isRequired)])))
       | _ \<Rightarrow> None)"

text \<open>\<^verbatim>\<open>for (const column of columnsResult)\<close> with either body.\<close>

fun column_loop :: "((string \<times> jv) list \<Rightarrow> jv \<Rightarrow> (string \<times> jv) list option)
    \<Rightarrow> jv list \<Rightarrow> (string \<times> jv) list \<Rightarrow> (string \<times> jv) list option" where
  "column_loop body [] fieldsObj = Some fieldsObj"
| "column_loop body (column # rest) fieldsObj =
     (case body fieldsObj column of
        None \<Rightarrow> None
      | Some fieldsObj' \<Rightarrow> column_loop body rest fieldsObj')"

section \<open>The handler of /api/query/schemas/find\<close>

text \<open>The two fields that the handler puts into every schema before the columns.\<close>

definition initial_fields :: "(string \<times> jv) list" where
  "initial_fields =
    [(''_id'', JObj [(''displayName'', JStr ''_id''), (''type'', JStr ''text''),
                     (''queryOperators'', text_operators)]),
     (''_owner'', JObj [(''displayName'', JStr ''_owner''), (''type'', JStr ''text''),
                        (''queryOperators'', text_operators)])]"

definition schema_of :: "jv \<Rightarrow> (string \<times> jv) list \<Rightarrow> jv" where
  "schema_of tableName fieldsObj =
    JObj [(''displayName'', tableName), (''id'', tableName),
          (''allowedOperations'',
             JArr (map JStr [''get'', ''find'', ''count'', ''update'', ''insert'', ''remove''])),
          (''maxPageSize'', JNum 50), (''ttl'', JNum 3600), (''fields'', JObj fieldsObj)]"

text \<open>
  The loop \<^verbatim>\<open>for (const table of schemaIds)\<close> with the array \<^verbatim>\<open>schemas\<close> as its state.
  \<open>None\<close> is an exception that leaves the loop: \<^verbatim>\<open>mysql.escapeId(table)\<close> or
  \<^verbatim>\<open>await executeQuery(sqlColumns)\<close> throwing, or a TypeError of the column loop.
\<close>

fun schemas_loop :: "outside \<Rightarrow> jv list \<Rightarrow> jv list \<Rightarrow> jv list option" where
  "schemas_loop w [] schemas = Some schemas"
| "schemas_loop w (tableName # rest) schemas =
     (case escapeId tableName of
        None \<Rightarrow> None
      | Some escapedTable \<Rightarrow>
          let sqlColumns = ''DESCRIBE '' @ escapedTable
          in case fst (executeQuery w sqlColumns []) of
               Inl err \<Rightarrow> None
             | Inr columnsResult \<Rightarrow>
                 (case columnsResult of
                    JArr columns \<Rightarrow>
                      (case column_loop find_column columns initial_fields of
                         None \<Rightarrow> None
                       | Some fieldsObj \<Rightarrow>
                           schemas_loop w rest (schemas @ [schema_of tableName fieldsObj]))
                  | _ \<Rightarrow> schemas_loop w rest schemas))"

text \<open>A response: an error status with its message, or status 200 with a JSON body.\<close>

datatype response = Failure nat message | Success jv

definition post_schemas_find :: "outside \<Rightarrow> body \<Rightarrow> response" where
  "post_schemas_find w b =
    (case schemaIds b of
       JArr ids \<Rightarrow>
         if length ids = 0 then Failure 400 SchemaIdsMissing
         else (case schemas_loop w ids [] of
                 None \<Rightarrow> Failure 500 InternalError
               | Some schemas \<Rightarrow> Success (JObj [(''schemas'', JArr schemas)]))
     | _ \<Rightarrow> Failure 400 SchemaIdsMissing)"

text \<open>
  A MySQL server that holds the given tables, as a handler running DESCRIBE statements
  meets it: connections open and close, \<^verbatim>\<open>DESCRIBE\<close> of a table it holds returns the
  rows describing its columns, and any other statement fails. In particular
  \<^verbatim>\<open>DESCRIBE\<close> of a table that does not exist fails with MySQL's error 1146
  (\<^verbatim>\<open>ER_NO_SUCH_TABLE\<close>), which \<^verbatim>\<open>connection.execute\<close> delivers by rejecting its promise.
\<close>

definition server_with :: "(string \<times> jv list) list \<Rightarrow> outside" where
  "server_with tables =
    \<lparr>getConnection = Inr 0,
     execute = (\<lambda>connection query binds.
        case find (\<lambda>(name, columns). query = ''DESCRIBE '' @ quoteId name) tables of
          Some (name, columns) \<Rightarrow> Inr (JArr columns)
        | None \<Rightarrow> Inl ''ER_NO_SUCH_TABLE''),
     connection_end = (\<lambda>connection. None)\<rparr>"

definition column :: "string \<Rightarrow> string \<Rightarrow> string \<Rightarrow> string \<Rightarrow> jv" where
  "column f t n k = JObj [(''Field'', JStr f), (''Type'', JStr t), (''Null'', JStr n), (''Key'', JStr k)]"

section \<open>Statements made of keywords, escaped identifiers and placeholders\<close>

text \<open>
  What it means for a statement to be parameterised: its text is a sequence of pieces,
  each a fixed fragment of SQL, an identifier put through \<^verbatim>\<open>mysql.escapeId\<close> (which
  did not throw), or the placeholder \<^verbatim>\<open>?\<close>. The fixed fragments are the literal parts
  of the template strings of \<^verbatim>\<open>server.js\<close>; none of them contains a question mark or
  a backtick.
\<close>

datatype piece = Keyword string | Identifier jv | Placeholder

fun render_piece :: "piece \<Rightarrow> string option" where
  "render_piece (Keyword k) = Some k"
| "render_piece (Identifier i) = escapeId i"
| "render_piece Placeholder = Some ''?''"

definition render :: "piece list \<Rightarrow> string option" where
  "render ps = map_option concat (those (map render_piece ps))"

definition sql_keywords :: "string list" where
  "sql_keywords =
    [''SELECT * FROM '', ''SELECT COUNT(*) AS totalCount FROM '', ''INSERT INTO '', ''UPDATE '',
     ''DELETE FROM '', '' WHERE '', '' WHERE _id = '', '' = '', '' AND '', '' IN ('', '','', '')'',
     '' ORDER BY '', '' ASC'', '' DESC'', '', '', '' LIMIT '', '' OFFSET '', '' ('',
     '') VALUES ('', '' SET '']"

fun allowed :: "jv set \<Rightarrow> piece \<Rightarrow> bool" where
  "allowed ids (Keyword k) = (k \<in> set sql_keywords)"
| "allowed ids (Identifier i) = (i \<in> ids)"
| "allowed ids Placeholder = True"

text \<open>\<open>parameterised ids n sql\<close>: the text \<open>sql\<close> consists of fixed fragments, escaped
  identifiers taken from \<open>ids\<close>, and exactly \<open>n\<close> placeholders.\<close>

definition parameterised :: "jv set \<Rightarrow> nat \<Rightarrow> string \<Rightarrow> bool" where
  "parameterised ids n sql \<longleftrightarrow>
     (\<exists>ps. render ps = Some sql \<and> (\<forall>p\<in>set ps. allowed ids p)
           \<and> count_list ps Placeholder = n)"

text \<open>
  The collection and field identifiers of a request: the table or collection name, the
  keys of the filter and of the payload, and the \<^verbatim>\<open>fieldName\<close> of the structured filter
  and of the sort entries.
\<close>

definition field_names :: "jv \<Rightarrow> jv set" where
  "field_names v = JStr ` set (keys v)"

definition identifiers :: "body \<Rightarrow> jv set" where
  "identifiers b =
     {table b, collectionName b, property (filter' b) ''fieldName''}
     \<union> field_names (filter' b) \<union> field_names (item b) \<union> field_names (data b)
     \<union> (case sort' b of None \<Rightarrow> {} | Some es \<Rightarrow> (\<lambda>e. property e ''fieldName'') ` set es)"

section \<open>Example requests\<close>

text \<open>The insert of the payload \<^verbatim>\<open>{name: "a", age: 5}\<close> into the table \<^verbatim>\<open>t\<close>.\<close>

definition insert_example :: body where
  "insert_example = empty_body\<lparr>collectionName := JStr ''t'',
     item := JObj [(''name'', JStr ''a''), (''age'', JNum 5)]\<rparr>"

text \<open>The update of table \<^verbatim>\<open>t\<close> with the item \<^verbatim>\<open>{_id: 7, name: "b"}\<close>, and with the
  item \<^verbatim>\<open>{_id: 0}\<close>, whose identifier is present and falsy.\<close>

definition update_example :: body where
  "update_example = empty_body\<lparr>collectionName := JStr ''t'',
     item := JObj [(''_id'', JNum 7), (''name'', JStr ''b'')]\<rparr>"

definition update_zero_id :: body where
  "update_zero_id = empty_body\<lparr>collectionName := JStr ''t'', item := JObj [(''_id'', JNum 0)]\<rparr>"

text \<open>A data/find request with \<^verbatim>\<open>skip\<close> and no \<^verbatim>\<open>limit\<close>, and one with both.\<close>

definition find_skip_only :: body where
  "find_skip_only = empty_body\<lparr>collectionName := JStr ''t'', skip := JNum 20\<rparr>"

definition find_skip_limit :: body where
  "find_skip_limit = empty_body\<lparr>collectionName := JStr ''t'', skip := JNum 20, limit := JNum 10\<rparr>"

text \<open>A data/find request sorted by \<^verbatim>\<open>a\<close> ascending, then by \<^verbatim>\<open>b\<close> with the
  direction \<^verbatim>\<open>asc\<close> in lower case, then by \<^verbatim>\<open>c\<close> with no direction.\<close>

definition find_sorted :: body where
  "find_sorted = empty_body\<lparr>collectionName := JStr ''t'',
     sort' := Some [JObj [(''fieldName'', JStr ''a''), (''order'', JStr ''ASC'')],
                    JObj [(''fieldName'', JStr ''b''), (''order'', JStr ''asc'')],
                    JObj [(''fieldName'', JStr ''c'')]]\<rparr>"

text \<open>A data/find request whose one sort entry gives its direction under the key
  \<^verbatim>\<open>direction\<close>: \<^verbatim>\<open>{fieldName: "a", direction: "ASC"}\<close>.\<close>

definition sort_by_direction :: body where
  "sort_by_direction = empty_body\<lparr>collectionName := JStr ''t'',
     sort' := Some [JObj [(''fieldName'', JStr ''a''), (''direction'', JStr ''ASC'')]]\<rparr>"

text \<open>Data/find and data/count requests with the flat filter \<^verbatim>\<open>{name: "a", age: 5}\<close>,
  and a data/find request with the flat filter \<^verbatim>\<open>{name: "a"}\<close>.\<close>

definition flat_example :: body where
  "flat_example = empty_body\<lparr>collectionName := JStr ''t'',
     filter' := JObj [(''name'', JStr ''a''), (''age'', JNum 5)]\<rparr>"

definition find_flat_filter :: body where
  "find_flat_filter = empty_body\<lparr>collectionName := JStr ''t'',
     filter' := JObj [(''name'', JStr ''a'')]\<rparr>"

text \<open>An items/find request on table \<^verbatim>\<open>t\<close> with the flat filter
  \<^verbatim>\<open>{name: "a", age: 5}\<close> and the limit 10.\<close>

definition items_flat_example :: body where
  "items_flat_example = empty_body\<lparr>table := JStr ''t'',
     filter' := JObj [(''name'', JStr ''a''), (''age'', JNum 5)], limit := JNum 10\<rparr>"

text \<open>Data/find requests with the clauses \<^verbatim>\<open>{operator: "$eq", fieldName: "f", value: 1}\<close>,
  \<^verbatim>\<open>{operator: "$hasSome", fieldName: "f", value: [1, 2, 3]}\<close>,
  \<^verbatim>\<open>{operator: "$hasSome", fieldName: "f", value: []}\<close>,
  \<^verbatim>\<open>{operator: "$gt", fieldName: "f", value: 1}\<close> and
  \<^verbatim>\<open>{operator: "$hasSome", fieldName: "f", value: 1}\<close>.\<close>

definition clause :: "string \<Rightarrow> jv \<Rightarrow> body" where
  "clause operator v = empty_body\<lparr>collectionName := JStr ''t'',
     filter' := JObj [(''operator'', JStr operator), (''fieldName'', JStr ''f''), (''value'', v)]\<rparr>"

definition eq_example :: body where
  "eq_example = clause ''$eq'' (JNum 1)"

definition hasSome_example :: body where
  "hasSome_example = clause ''$hasSome'' (JArr [JNum 1, JNum 2, JNum 3])"

definition hasSome_empty :: body where
  "hasSome_empty = clause ''$hasSome'' (JArr [])"

definition gt_example :: body where
  "gt_example = clause ''$gt'' (JNum 1)"

definition hasSome_scalar :: body where
  "hasSome_scalar = clause ''$hasSome'' (JNum 1)"

text \<open>A schemas/find request that names the table \<^verbatim>\<open>users\<close> and a table \<^verbatim>\<open>missing\<close>,
  and a server that holds only \<^verbatim>\<open>users\<close>, with the column
  \<^verbatim>\<open>{Field: "age", Type: "int(11)", Null: "NO", Key: ""}\<close>.\<close>

definition schemas_example :: body where
  "schemas_example = empty_body\<lparr>schemaIds := JArr [JStr ''users'', JStr ''missing'']\<rparr>"

definition users_only :: outside where
  "users_only = server_with [(''users'', [column ''age'' ''int(11)'' ''NO'' []])]"

text \<open>An items/find request whose table name and filter key contain backticks and whose
  filter value is a fragment of SQL.\<close>

definition hostile_example :: body where
  "hostile_example = empty_body\<lparr>table := JStr ''a`b'',
     filter' := JObj [(''x`; DROP TABLE t; --'', JStr ''1 OR 1=1'')], limit := JNum 5\<rparr>"

section \<open>Insert: fields, placeholders and values line up\<close>

lemma escapeId_string: "typeof_string v \<Longrightarrow> \<exists>s. v = JStr s \<and> escapeId v = Some (quoteId s)"
  by (cases v) simp_all

lemma insert_loop_acc:
  "insert_loop kvs (fs, ps, vs) =
     (fs @ map (\<lambda>kv. quoteId (fst kv)) kvs,
      ps @ replicate (length kvs) ''?'',
      vs @ map snd kvs)"
proof (induction kvs arbitrary: fs ps vs)
  case Nil
  show ?case by simp
next
  case (Cons kv kvs)
  obtain k v where kv: "kv = (k, v)" by (cases kv)
  show ?case
    unfolding kv by (simp add: Cons.IH replicate_app_Cons_same)
qed

lemma insert_loop_start:
  "insert_loop kvs ([], [], []) =
     (map (\<lambda>kv. quoteId (fst kv)) kvs, replicate (length kvs) ''?'', map snd kvs)"
  using insert_loop_acc [of kvs "[]" "[]" "[]"] by simp

text \<open>
  Claim C3, as stated, at its own example: the statement built for the payload
  \<^verbatim>\<open>{name: "a", age: 5}\<close> and the table \<^verbatim>\<open>t\<close> is not the text
  \<^verbatim>\<open>INSERT INTO t (name, age) VALUES (?, ?)\<close>, because the handler passes the table name
  and every field name through \<^verbatim>\<open>mysql.escapeId\<close>.
\<close>

theorem insert_example_unescaped_counterexample:
  "post_data_insert insert_example
     \<noteq> Execute ''INSERT INTO t (name, age) VALUES (?, ?)'' [JStr ''a'', JNum 5]"
  by (simp add: post_data_insert_def insert_example_def empty_body_def or_else_def keys_def
        quoteId_def replaceAll_def)

text \<open>
  Claim C3, amended: for every payload that the insert handler accepts (a non-empty
  object, taken from \<^verbatim>\<open>item\<close> or else from \<^verbatim>\<open>data\<close>), the loop produces the field
  list, the placeholder list and the value list in the iteration order of the payload's
  entries: all three have one element per entry, and at every position the field is the
  escaped key of that entry, the placeholder is \<^verbatim>\<open>?\<close> and the value is the value of that
  entry; the statement joins the fields and the placeholders in that order and the values
  are its parameters. In particular the payload \<^verbatim>\<open>{name: "a", age: 5}\<close> for table
  \<^verbatim>\<open>t\<close> yields \<^verbatim>\<open>INSERT INTO `t` (`name`, `age`) VALUES (?, ?)\<close>, the identifiers
  escaped, with the parameters \<^verbatim>\<open>["a", 5]\<close> in that order.
\<close>

theorem insert_fields_placeholders_values_aligned:
  assumes "truthy (collectionName b)" and "typeof_string (collectionName b)"
    and "payload = or_else (item b) (data b)"
    and "truthy payload" and "typeof_object payload" and "entries payload \<noteq> []"
  shows "insert_loop (entries payload) ([], [], []) =
           (map (\<lambda>kv. quoteId (fst kv)) (entries payload),
            replicate (length (entries payload)) ''?'',
            map snd (entries payload))
    \<and> (\<exists>escapedTable. escapeId (collectionName b) = Some escapedTable
        \<and> post_data_insert b =
          Execute (''INSERT INTO '' @ escapedTable
                   @ '' ('' @ join '', '' (map (\<lambda>kv. quoteId (fst kv)) (entries payload))
                   @ '') VALUES ('' @ join '', '' (replicate (length (entries payload)) ''?'')
                   @ '')'')
                  (map snd (entries payload)))
    \<and> (\<forall>i < length (entries payload).
          map (\<lambda>kv. quoteId (fst kv)) (entries payload) ! i = quoteId (fst (entries payload ! i))
          \<and> replicate (length (entries payload)) ''?'' ! i = ''?''
          \<and> map snd (entries payload) ! i = snd (entries payload ! i))
    \<and> post_data_insert insert_example =
          Execute ''INSERT INTO `t` (`name`, `age`) VALUES (?, ?)'' [JStr ''a'', JNum 5]"
proof -
  have example: "post_data_insert insert_example =
      Execute ''INSERT INTO `t` (`name`, `age`) VALUES (?, ?)'' [JStr ''a'', JNum 5]"
    by (simp add: post_data_insert_def insert_example_def empty_body_def or_else_def keys_def
          quoteId_def replaceAll_def)
  from assms(2) obtain c where c: "collectionName b = JStr c"
    and esc: "escapeId (collectionName b) = Some (quoteId c)"
    using escapeId_string by blast
  from assms esc have "post_data_insert b =
      Execute (''INSERT INTO '' @ quoteId c
               @ '' ('' @ join '', '' (map (\<lambda>kv. quoteId (fst kv)) (entries payload))
               @ '') VALUES ('' @ join '', '' (replicate (length (entries payload)) ''?'')
               @ '')'')
              (map snd (entries payload))"
    by (simp add: post_data_insert_def insert_loop_start keys_def Let_def)
  with esc have "\<exists>escapedTable. escapeId (collectionName b) = Some escapedTable
        \<and> post_data_insert b =
          Execute (''INSERT INTO '' @ escapedTable
                   @ '' ('' @ join '', '' (map (\<lambda>kv. quoteId (fst kv)) (entries payload))
                   @ '') VALUES ('' @ join '', '' (replicate (length (entries payload)) ''?'')
                   @ '')'')
                  (map snd (entries payload))"
    by blast
  with example show ?thesis
    by (simp add: insert_loop_start)
qed

text \<open>
  Claim C3, the amended statement at a payload sent in \<^verbatim>\<open>data\<close>, with a key that
  contains a backtick.
\<close>

theorem insert_fields_placeholders_values_aligned_witness:
  "post_data_insert (empty_body\<lparr>collectionName := JStr ''t'',
       data := JObj [(''a`b'', JNull), (''c'', JBool True)]\<rparr>)
     = Execute ''INSERT INTO `t` (`a``b`, `c`) VALUES (?, ?)'' [JNull, JBool True]"
  using insert_fields_placeholders_values_aligned
    [of "empty_body\<lparr>collectionName := JStr ''t'',
           data := JObj [(''a`b'', JNull), (''c'', JBool True)]\<rparr>"
        "JObj [(''a`b'', JNull), (''c'', JBool True)]"]
  by (simp add: empty_body_def or_else_def quoteId_def replaceAll_def)

section \<open>The query executor releases its connection and keeps the statement's outcome\<close>

lemma executeQuery_result:
  "fst (executeQuery w query binds) =
     (case getConnection w of
        Inl err \<Rightarrow> Inl err
      | Inr connection \<Rightarrow>
          (case execute w connection query binds of
             Inl err \<Rightarrow> Inl err
           | Inr rows \<Rightarrow> Inr (or_else rows (JArr []))))"
  by (simp add: executeQuery_def Let_def split: sum.splits)

lemma executeQuery_trace:
  "getConnection w = Inr c \<Longrightarrow>
     snd (executeQuery w query binds) =
       [Console ConnectionEstablished, Console (ExecutingQuery query), Console (Parameters binds),
        CallExecute c query binds,
        Console (case execute w c query binds of
                   Inl err \<Rightarrow> QueryFailed err | Inr rows \<Rightarrow> RawResults rows),
        CallEnd c,
        Console (case connection_end w c of
                   Some err \<Rightarrow> CloseFailed err | None \<Rightarrow> ConnectionClosed)]"
  by (simp add: executeQuery_def Let_def split: sum.splits option.splits)

lemma executeQuery_no_connection:
  "getConnection w = Inl err \<Longrightarrow>
     executeQuery w query binds = (Inl err, [Console (QueryFailed err)])"
  by (simp add: executeQuery_def)

text \<open>
  Claim C9: whenever \<^verbatim>\<open>executeQuery\<close> obtained a connection, it calls \<^verbatim>\<open>end()\<close> on that
  connection exactly once, after the statement, whether the statement succeeded or failed
  and whether \<^verbatim>\<open>end()\<close> itself fails; when no connection was obtained there is nothing to
  release and the error of \<^verbatim>\<open>getConnection\<close> is thrown. A failure of \<^verbatim>\<open>end()\<close> is written
  to the console and changes nothing else: the result of the call is the same for every
  behaviour of \<^verbatim>\<open>end()\<close>, a statement error is thrown to the caller unchanged, and a
  statement that succeeded returns its rows (or the empty array when they are falsy).
\<close>

theorem executeQuery_releases_connection_and_keeps_outcome:
  "(\<forall>c. getConnection w = Inr c \<longrightarrow>
        ended (snd (executeQuery w query binds)) = [c]
      \<and> (\<exists>before after.
            snd (executeQuery w query binds) = before @ CallExecute c query binds # after
          \<and> ended before = [] \<and> ended after = [c])
      \<and> (\<forall>err. execute w c query binds = Inl err \<longrightarrow>
             fst (executeQuery w query binds) = Inl err)
      \<and> (\<forall>rows. execute w c query binds = Inr rows \<longrightarrow>
             fst (executeQuery w query binds) = Inr (or_else rows (JArr [])))
      \<and> (\<forall>err. connection_end w c = Some err \<longrightarrow>
             Console (CloseFailed err) \<in> set (snd (executeQuery w query binds))))
   \<and> (\<forall>err. getConnection w = Inl err \<longrightarrow>
        fst (executeQuery w query binds) = Inl err
      \<and> ended (snd (executeQuery w query binds)) = [])
   \<and> (\<forall>closing. fst (executeQuery (w\<lparr>connection_end := closing\<rparr>) query binds)
                 = fst (executeQuery w query binds))"
proof (intro conjI allI impI)
  fix c assume c: "getConnection w = Inr c"
  show "ended (snd (executeQuery w query binds)) = [c]"
    by (simp add: executeQuery_trace [OF c])
  show "\<exists>before after.
          snd (executeQuery w query binds) = before @ CallExecute c query binds # after
        \<and> ended before = [] \<and> ended after = [c]"
  proof (intro exI conjI)
    show "snd (executeQuery w query binds) =
        [Console ConnectionEstablished, Console (ExecutingQuery query), Console (Parameters binds)]
        @ CallExecute c query binds #
        [Console (case execute w c query binds of
                    Inl err \<Rightarrow> QueryFailed err | Inr rows \<Rightarrow> RawResults rows),
         CallEnd c,
         Console (case connection_end w c of
                    Some err \<Rightarrow> CloseFailed err | None \<Rightarrow> ConnectionClosed)]"
      by (simp add: executeQuery_trace [OF c])
  qed simp_all
  {
    fix err assume "execute w c query binds = Inl err"
    then show "fst (executeQuery w query binds) = Inl err"
      by (simp add: executeQuery_result c)
  }
  {
    fix rows assume "execute w c query binds = Inr rows"
    then show "fst (executeQuery w query binds) = Inr (or_else rows (JArr []))"
      by (simp add: executeQuery_result c)
  }
  {
    fix err assume "connection_end w c = Some err"
    then show "Console (CloseFailed err) \<in> set (snd (executeQuery w query binds))"
      by (simp add: executeQuery_trace [OF c])
  }
next
  fix err assume e: "getConnection w = Inl err"
  show "fst (executeQuery w query binds) = Inl err"
    by (simp add: executeQuery_no_connection [OF e])
  show "ended (snd (executeQuery w query binds)) = []"
    by (simp add: executeQuery_no_connection [OF e])
next
  fix closing
  show "fst (executeQuery (w\<lparr>connection_end := closing\<rparr>) query binds)
          = fst (executeQuery w query binds)"
    by (simp add: executeQuery_result split: sum.splits)
qed

text \<open>
  Claim C9 at a call whose statement fails and whose \<^verbatim>\<open>end()\<close> fails as well: the
  connection is ended once, the failure to close is logged, and the caller gets the
  statement's error.
\<close>

theorem executeQuery_releases_connection_and_keeps_outcome_witness:
  "ended (snd (executeQuery failing_outside ''SELECT 1'' [])) = [3]
   \<and> fst (executeQuery failing_outside ''SELECT 1'' []) = Inl ''ER_PARSE_ERROR''
   \<and> Console (CloseFailed ''ECONNRESET'')
        \<in> set (snd (executeQuery failing_outside ''SELECT 1'' []))"
  using executeQuery_releases_connection_and_keeps_outcome
    [of failing_outside "''SELECT 1''" "[]"]
  by (simp add: failing_outside_def)

section \<open>Pagination of data/find\<close>

text \<open>
  Claim C5: each of the two data/find handlers appends the pagination clause
  \<^verbatim>\<open>LIMIT ?, ?\<close> (with \<^verbatim>\<open>skip\<close> and \<^verbatim>\<open>limit\<close> as its two parameters) exactly when
  \<^verbatim>\<open>skip\<close> and \<^verbatim>\<open>limit\<close> are both numbers. In every other case, and so when only one of
  the two is supplied, the handler does exactly what it does for the same request with
  neither \<^verbatim>\<open>skip\<close> nor \<^verbatim>\<open>limit\<close>: the statement has no pagination clause at all.
\<close>

theorem data_find_paginates_iff_skip_and_limit_are_numbers:
  "post_data_find b =
     (case post_data_find (b\<lparr>skip := Undefined, limit := Undefined\<rparr>) of
        Reject status msg \<Rightarrow> Reject status msg
      | Execute sql params \<Rightarrow>
          if typeof_number (skip b) \<and> typeof_number (limit b)
          then Execute (sql @ '' LIMIT ?, ?'') (params @ [skip b, limit b])
          else Execute sql params)
   \<and> post_data_find_v1 b =
     (case post_data_find_v1 (b\<lparr>skip := Undefined, limit := Undefined\<rparr>) of
        Reject status msg \<Rightarrow> Reject status msg
      | Execute sql params \<Rightarrow>
          if typeof_number (skip b) \<and> typeof_number (limit b)
          then Execute (sql @ '' LIMIT ?, ?'') (params @ [skip b, limit b])
          else Execute sql params)"
proof
  show "post_data_find b =
     (case post_data_find (b\<lparr>skip := Undefined, limit := Undefined\<rparr>) of
        Reject status msg \<Rightarrow> Reject status msg
      | Execute sql params \<Rightarrow>
          if typeof_number (skip b) \<and> typeof_number (limit b)
          then Execute (sql @ '' LIMIT ?, ?'') (params @ [skip b, limit b])
          else Execute sql params)"
    by (auto simp add: post_data_find_def paginate_def Let_def
          split: sum.splits option.splits prod.splits)
  show "post_data_find_v1 b =
     (case post_data_find_v1 (b\<lparr>skip := Undefined, limit := Undefined\<rparr>) of
        Reject status msg \<Rightarrow> Reject status msg
      | Execute sql params \<Rightarrow>
          if typeof_number (skip b) \<and> typeof_number (limit b)
          then Execute (sql @ '' LIMIT ?, ?'') (params @ [skip b, limit b])
          else Execute sql params)"
    by (auto simp add: post_data_find_v1_def paginate_def Let_def
          split: sum.splits option.splits prod.splits)
qed

text \<open>Claim C5 at a request with \<^verbatim>\<open>skip\<close> alone and at one with both.\<close>

theorem data_find_paginates_iff_skip_and_limit_are_numbers_witness:
  "post_data_find find_skip_only = Execute ''SELECT * FROM `t`'' []
   \<and> post_data_find find_skip_limit = Execute ''SELECT * FROM `t` LIMIT ?, ?'' [JNum 20, JNum 10]
   \<and> post_data_find_v1 find_skip_only = Execute ''SELECT * FROM `t`'' []"
  using data_find_paginates_iff_skip_and_limit_are_numbers [of find_skip_only]
    data_find_paginates_iff_skip_and_limit_are_numbers [of find_skip_limit]
  by (simp add: find_skip_only_def find_skip_limit_def empty_body_def post_data_find_def
        post_data_find_v1_def where_clause_def order_by_def paginate_def keys_def
        quoteId_def replaceAll_def)

section \<open>Sorting of data/find\<close>

lemma sort_condition_value:
  "e \<noteq> Undefined \<Longrightarrow> e \<noteq> JNull \<Longrightarrow> escapeId (property e ''fieldName'') = Some escapedField \<Longrightarrow>
   sort_condition e = Some (order_token escapedField e)"
  by (cases e) (simp_all add: Let_def order_token_def)

lemma sort_conditions_value:
  "\<forall>e\<in>set es. e \<noteq> Undefined \<and> e \<noteq> JNull \<Longrightarrow>
   map (\<lambda>e. escapeId (property e ''fieldName'')) es = map Some escapedFields \<Longrightarrow>
   those (map sort_condition es)
     = Some (map (\<lambda>(escapedField, e). order_token escapedField e) (zip escapedFields es))"
proof (induction es arbitrary: escapedFields)
  case Nil
  then show ?case by simp
next
  case (Cons e es)
  from Cons.prems(2) obtain f fs where fs: "escapedFields = f # fs"
    and f: "escapeId (property e ''fieldName'') = Some f"
    and rest: "map (\<lambda>e. escapeId (property e ''fieldName'')) es = map Some fs"
    by (cases escapedFields) auto
  from Cons.prems(1) have e: "e \<noteq> Undefined" "e \<noteq> JNull" by simp_all
  have "those (map sort_condition es)
      = Some (map (\<lambda>(escapedField, e). order_token escapedField e) (zip fs es))"
    using Cons.prems(1) rest by (intro Cons.IH) simp_all
  then show ?case
    by (simp add: fs sort_condition_value [OF e f])
qed

lemma order_by_value:
  assumes "es \<noteq> []" and "\<forall>e\<in>set es. e \<noteq> Undefined \<and> e \<noteq> JNull"
    and "map (\<lambda>e. escapeId (property e ''fieldName'')) es = map Some escapedFields"
  shows "order_by (Some es) =
     Some ('' ORDER BY '' @ join '', ''
        (map (\<lambda>(escapedField, e). order_token escapedField e) (zip escapedFields es)))"
  using assms(1) sort_conditions_value [OF assms(2) assms(3)] by (simp add: order_by_def)

lemma data_find_v1_plan:
  assumes "truthy (collectionName b)" and "escapeId (collectionName b) = Some escapedTable"
    and "order_by (sort' b) = Some orderBy"
  shows "post_data_find_v1 b =
      Execute (''SELECT * FROM '' @ escapedTable
               @ (if truthy (filter' b) \<and> keys (filter' b) \<noteq> []
                  then '' WHERE '' @ conditions (filter' b) else [])
               @ orderBy
               @ (if typeof_number (skip b) \<and> typeof_number (limit b)
                  then '' LIMIT ?, ?'' else []))
              ((if truthy (filter' b) \<and> keys (filter' b) \<noteq> []
                then object_values (filter' b) else [])
               @ (if typeof_number (skip b) \<and> typeof_number (limit b)
                  then [skip b, limit b] else []))"
  using assms by (simp add: post_data_find_v1_def paginate_def Let_def)

lemma data_find_plan:
  assumes "truthy (collectionName b)" and "escapeId (collectionName b) = Some escapedTable"
    and "where_clause (filter' b) = Inr (condition, ps)"
    and "order_by (sort' b) = Some orderBy"
  shows "post_data_find b =
      Execute (''SELECT * FROM '' @ escapedTable @ condition @ orderBy
               @ (if typeof_number (skip b) \<and> typeof_number (limit b)
                  then '' LIMIT ?, ?'' else []))
              (ps @ (if typeof_number (skip b) \<and> typeof_number (limit b)
                     then [skip b, limit b] else []))"
  using assms by (simp add: post_data_find_def paginate_def Let_def)

text \<open>
  Claim C10, as stated, at the sort entry \<^verbatim>\<open>{fieldName: "a", direction: "ASC"}\<close>: the
  direction of the entry is the ascending token and the generated ORDER BY token is
  \<^verbatim>\<open>`a` DESC\<close>, in both data/find handlers. The handlers read the direction from the
  property \<^verbatim>\<open>order\<close>, which this entry does not have.
\<close>

theorem sort_entry_with_direction_key_counterexample:
  "post_data_find_v1 sort_by_direction = Execute ''SELECT * FROM `t` ORDER BY `a` DESC'' []
   \<and> post_data_find sort_by_direction = Execute ''SELECT * FROM `t` ORDER BY `a` DESC'' []"
  by (simp add: sort_by_direction_def empty_body_def post_data_find_v1_def post_data_find_def
        where_clause_def order_by_def paginate_def keys_def quoteId_def replaceAll_def)

text \<open>
  Claim C10, amended: the direction of a sort entry is its property \<^verbatim>\<open>order\<close>. In a
  data/find request with a collection name, whose \<^verbatim>\<open>sort\<close> is a non-empty array of
  entries (none of them \<^verbatim>\<open>null\<close>) and whose collection and field names
  \<^verbatim>\<open>mysql.escapeId\<close> escapes without throwing (as it does every string), the token
  generated for an entry is its escaped field identifier followed by \<^verbatim>\<open>ASC\<close> when the
  entry's \<^verbatim>\<open>order\<close> is the string \<^verbatim>\<open>ASC\<close>, and followed by \<^verbatim>\<open>DESC\<close> for every other
  value of \<^verbatim>\<open>order\<close>, a missing one included. The \<^verbatim>\<open>ORDER BY\<close> clause is these
  tokens in the order of the entries, separated by commas, and each of the two data/find
  handlers executes a statement with that clause after the table name and the filter
  condition and before the pagination clause (the second handler when it accepts the
  filter).
\<close>

theorem sort_token_is_ASC_only_for_order_ASC:
  assumes "truthy (collectionName b)" and "escapeId (collectionName b) = Some escapedTable"
    and "sort' b = Some es" and "es \<noteq> []" and "\<forall>e\<in>set es. e \<noteq> Undefined \<and> e \<noteq> JNull"
    and "map (\<lambda>e. escapeId (property e ''fieldName'')) es = map Some escapedFields"
    and "tokens = map (\<lambda>(escapedField, e). order_token escapedField e) (zip escapedFields es)"
  shows "length tokens = length es
    \<and> (\<forall>i < length es.
          (property (es ! i) ''order'' = JStr ''ASC'' \<longrightarrow>
             tokens ! i = escapedFields ! i @ '' ASC'')
        \<and> (property (es ! i) ''order'' \<noteq> JStr ''ASC'' \<longrightarrow>
             tokens ! i = escapedFields ! i @ '' DESC''))
    \<and> those (map sort_condition es) = Some tokens
    \<and> post_data_find_v1 b =
         Execute (''SELECT * FROM '' @ escapedTable
                  @ (if truthy (filter' b) \<and> keys (filter' b) \<noteq> []
                     then '' WHERE '' @ conditions (filter' b) else [])
                  @ ('' ORDER BY '' @ join '', '' tokens)
                  @ (if typeof_number (skip b) \<and> typeof_number (limit b)
                     then '' LIMIT ?, ?'' else []))
                 ((if truthy (filter' b) \<and> keys (filter' b) \<noteq> []
                   then object_values (filter' b) else [])
                  @ (if typeof_number (skip b) \<and> typeof_number (limit b)
                     then [skip b, limit b] else []))
    \<and> (\<forall>condition ps. where_clause (filter' b) = Inr (condition, ps) \<longrightarrow>
          post_data_find b =
            Execute (''SELECT * FROM '' @ escapedTable @ condition
                     @ ('' ORDER BY '' @ join '', '' tokens)
                     @ (if typeof_number (skip b) \<and> typeof_number (limit b)
                        then '' LIMIT ?, ?'' else []))
                    (ps @ (if typeof_number (skip b) \<and> typeof_number (limit b)
                           then [skip b, limit b] else [])))"
proof (intro conjI allI impI)
  from assms(6) have len: "length escapedFields = length es"
    by (metis length_map)
  then show "length tokens = length es" by (simp add: assms(7))
  show c: "those (map sort_condition es) = Some tokens"
    unfolding assms(7) by (rule sort_conditions_value [OF assms(5) assms(6)])
  have ob: "order_by (sort' b) = Some ('' ORDER BY '' @ join '', '' tokens)"
    unfolding assms(3) assms(7) by (rule order_by_value [OF assms(4) assms(5) assms(6)])
  show "post_data_find_v1 b =
         Execute (''SELECT * FROM '' @ escapedTable
                  @ (if truthy (filter' b) \<and> keys (filter' b) \<noteq> []
                     then '' WHERE '' @ conditions (filter' b) else [])
                  @ ('' ORDER BY '' @ join '', '' tokens)
                  @ (if typeof_number (skip b) \<and> typeof_number (limit b)
                     then '' LIMIT ?, ?'' else []))
                 ((if truthy (filter' b) \<and> keys (filter' b) \<noteq> []
                   then object_values (filter' b) else [])
                  @ (if typeof_number (skip b) \<and> typeof_number (limit b)
                     then [skip b, limit b] else []))"
    by (rule data_find_v1_plan [OF assms(1) assms(2) ob])
  {
    fix condition ps assume "where_clause (filter' b) = Inr (condition, ps)"
    then show "post_data_find b =
            Execute (''SELECT * FROM '' @ escapedTable @ condition
                     @ ('' ORDER BY '' @ join '', '' tokens)
                     @ (if typeof_number (skip b) \<and> typeof_number (limit b)
                        then '' LIMIT ?, ?'' else []))
                    (ps @ (if typeof_number (skip b) \<and> typeof_number (limit b)
                           then [skip b, limit b] else []))"
      by (rule data_find_plan [OF assms(1) assms(2) _ ob])
  }
  {
    fix i assume i: "i < length es"
    with len have tok: "tokens ! i = order_token (escapedFields ! i) (es ! i)"
      by (simp add: assms(7))
    {
      assume "property (es ! i) ''order'' = JStr ''ASC''"
      then show "tokens ! i = escapedFields ! i @ '' ASC''"
        by (simp add: tok order_token_def)
    }
    {
      assume "property (es ! i) ''order'' \<noteq> JStr ''ASC''"
      then show "tokens ! i = escapedFields ! i @ '' DESC''"
        by (simp add: tok order_token_def)
    }
  }
qed

text \<open>Claim C10, the amended statement at a request with an ascending entry, an entry
  whose \<^verbatim>\<open>order\<close> is \<^verbatim>\<open>asc\<close> in lower case, and an entry with no \<^verbatim>\<open>order\<close>: both
  handlers execute the statement with the three tokens.\<close>

theorem sort_token_is_ASC_only_for_order_ASC_witness:
  "post_data_find_v1 find_sorted =
     Execute ''SELECT * FROM `t` ORDER BY `a` ASC, `b` DESC, `c` DESC'' []
   \<and> post_data_find find_sorted =
     Execute ''SELECT * FROM `t` ORDER BY `a` ASC, `b` DESC, `c` DESC'' []"
  using sort_token_is_ASC_only_for_order_ASC
    [of find_sorted "''`t`''"
        "[JObj [(''fieldName'', JStr ''a''), (''order'', JStr ''ASC'')],
          JObj [(''fieldName'', JStr ''b''), (''order'', JStr ''asc'')],
          JObj [(''fieldName'', JStr ''c'')]]"
        "[''`a`'', ''`b`'', ''`c`'']"
        "[''`a` ASC'', ''`b` DESC'', ''`c` DESC'']"]
  by (simp add: find_sorted_def empty_body_def where_clause_def keys_def order_token_def
        quoteId_def replaceAll_def)

section \<open>Update: the identifier goes to the WHERE clause\<close>

lemma indexOf_absent: "k \<notin> set ks \<Longrightarrow> indexOf ks k = - 1"
  by (induction ks) (auto simp add: Let_def)

lemma indexOf_present: "k \<in> set ks \<Longrightarrow> 0 \<le> indexOf ks k"
  by (induction ks) (auto simp add: Let_def)

lemma enumerate_keep_all:
  "(\<And>j. n \<le> j \<Longrightarrow> int j \<noteq> i) \<Longrightarrow>
     map snd (filter (\<lambda>(index, x). int index \<noteq> i) (enumerate n xs)) = xs"
proof (induction xs arbitrary: n)
  case Nil
  show ?case by simp
next
  case (Cons x xs)
  have "map snd (filter (\<lambda>(index, x). int index \<noteq> i) (enumerate (Suc n) xs)) = xs"
    by (rule Cons.IH) (simp add: Cons.prems)
  moreover have "int n \<noteq> i" by (simp add: Cons.prems)
  ultimately show ?case by simp
qed

lemma filter_keep_all: "k \<notin> fst ` set kvs \<Longrightarrow> filter (\<lambda>kv. fst kv \<noteq> k) kvs = kvs"
  by (induction kvs) auto

lemma without_index_from:
  "distinct (map fst kvs) \<Longrightarrow>
     map snd (filter (\<lambda>(index, x). int index \<noteq> int n + indexOf (map fst kvs) k)
                     (enumerate n (map snd kvs)))
       = map snd (filter (\<lambda>kv. fst kv \<noteq> k) kvs)"
proof (induction kvs arbitrary: n)
  case Nil
  show ?case by simp
next
  case (Cons kv kvs)
  obtain k' v where kv: "kv = (k', v)" by (cases kv)
  from Cons.prems have d: "distinct (map fst kvs)" and fresh: "k' \<notin> fst ` set kvs"
    by (simp_all add: kv)
  show ?case
  proof (cases "k' = k")
    case True
    have "map snd (filter (\<lambda>(index, x). int index \<noteq> int n) (enumerate (Suc n) (map snd kvs)))
            = map snd kvs"
      by (rule enumerate_keep_all) simp
    moreover have "filter (\<lambda>kv. fst kv \<noteq> k) kvs = kvs"
      using fresh True by (intro filter_keep_all) simp
    ultimately show ?thesis by (simp add: kv True)
  next
    case False
    show ?thesis
    proof (cases "k \<in> set (map fst kvs)")
      case True
      then have pos: "0 \<le> indexOf (map fst kvs) k" by (rule indexOf_present)
      have "map snd (filter (\<lambda>(index, x). int index \<noteq> int (Suc n) + indexOf (map fst kvs) k)
                     (enumerate (Suc n) (map snd kvs)))
              = map snd (filter (\<lambda>kv. fst kv \<noteq> k) kvs)"
        by (rule Cons.IH [OF d])
      with pos False show ?thesis by (simp add: kv Let_def ac_simps)
    next
      case absent: False
      then have idx: "indexOf (map fst kvs) k = - 1" by (rule indexOf_absent)
      have "map snd (filter (\<lambda>(index, x). int index \<noteq> int n + - 1)
                     (enumerate (Suc n) (map snd kvs))) = map snd kvs"
        by (rule enumerate_keep_all) simp
      moreover have "filter (\<lambda>kv. fst kv \<noteq> k) kvs = kvs"
        using absent by (intro filter_keep_all) simp
      ultimately show ?thesis using False by (simp add: kv idx Let_def)
    qed
  qed
qed

lemma without_index_of_key:
  "distinct (map fst kvs) \<Longrightarrow>
     without_index (indexOf (map fst kvs) k) (map snd kvs)
       = map snd (filter (\<lambda>kv. fst kv \<noteq> k) kvs)"
  using without_index_from [of kvs 0 k] by (simp add: without_index_def)

lemma filter_keys:
  "filter (\<lambda>key. key \<noteq> k) (map fst kvs) = map fst (filter (\<lambda>kv. fst kv \<noteq> k) kvs)"
  by (induction kvs) auto

lemma join_empty_iff:
  "(\<And>x. x \<in> set xs \<Longrightarrow> x \<noteq> []) \<Longrightarrow> join sep xs = [] \<longleftrightarrow> xs = []"
  by (induction sep xs rule: join.induct) auto

lemma data_update_plan:
  assumes "truthy (collectionName b)" and "item b = JObj kvs" and "distinct (map fst kvs)"
    and "truthy (lookup kvs ''_id'')" and "escapeId (collectionName b) = Some escapedTable"
  shows "post_data_update b =
      (if filter (\<lambda>kv. fst kv \<noteq> ''_id'') kvs = [] then Reject 400 NoFieldsToUpdate
       else Execute (''UPDATE '' @ escapedTable @ '' SET ''
                @ join '', '' (map (\<lambda>kv. quoteId (fst kv) @ '' = ?'')
                                 (filter (\<lambda>kv. fst kv \<noteq> ''_id'') kvs))
                @ '' WHERE _id = ?'')
              (map snd (filter (\<lambda>kv. fst kv \<noteq> ''_id'') kvs) @ [lookup kvs ''_id'']))"
proof -
  let ?others = "filter (\<lambda>kv. fst kv \<noteq> ''_id'') kvs"
  have updateFields:
    "join '', '' (map (\<lambda>key. quoteId key @ '' = ?'')
                    (filter (\<lambda>key. key \<noteq> ''_id'') (keys (item b))))
     = join '', '' (map (\<lambda>kv. quoteId (fst kv) @ '' = ?'') ?others)"
    by (simp add: assms(2) keys_def filter_keys comp_def)
  have empty:
    "join '', '' (map (\<lambda>kv. quoteId (fst kv) @ '' = ?'') ?others) = [] \<longleftrightarrow> ?others = []"
    using join_empty_iff [of "map (\<lambda>kv. quoteId (fst kv) @ '' = ?'') ?others" "'', ''"]
    by auto
  have params:
    "without_index (indexOf (keys (item b)) ''_id'') (object_values (item b)) = map snd ?others"
    using without_index_of_key [OF assms(3), of "''_id''"]
    by (simp add: assms(2) keys_def object_values_def)
  show ?thesis
    unfolding post_data_update_def Let_def updateFields params empty
    using assms by simp
qed

text \<open>
  Claim C4, as stated, at the item \<^verbatim>\<open>{_id: 0}\<close>: the item contains the field \<^verbatim>\<open>_id\<close> and
  has no other key, and the update does not fail with the "no fields to update" error: the
  guard \<^verbatim>\<open>!item._id\<close> takes a falsy identifier for a missing one and answers with the
  "invalid item or missing ID" error.
\<close>

theorem update_falsy_id_counterexample:
  "post_data_update update_zero_id = Reject 400 InvalidItemOrMissingId
   \<and> post_data_update update_zero_id \<noteq> Reject 400 NoFieldsToUpdate"
  by (simp add: post_data_update_def update_zero_id_def empty_body_def)

text \<open>
  Claim C4, amended: for every update request with a collection name that
  \<^verbatim>\<open>mysql.escapeId\<close> escapes without throwing (as it does every string) and an item whose
  \<^verbatim>\<open>_id\<close> is truthy (an item whose keys are distinct, as those of an object are): if the
  item has another key, the statement's SET clause has one assignment per key other than
  \<^verbatim>\<open>_id\<close>, in the item's order, its WHERE clause is \<^verbatim>\<open>_id = ?\<close>, and its parameters
  are the values of those keys in the same order followed by the value of \<^verbatim>\<open>_id\<close> as the
  last one; if the item has no key other than \<^verbatim>\<open>_id\<close>, the handler answers 400 with the
  "no fields to update" error and builds no statement. In particular the item
  \<^verbatim>\<open>{_id: 7, name: "b"}\<close> yields \<^verbatim>\<open>UPDATE `t` SET `name` = ? WHERE _id = ?\<close> with the
  parameters \<^verbatim>\<open>["b", 7]\<close>. An item whose \<^verbatim>\<open>_id\<close> is falsy is rejected before the
  collection name is escaped, with the "invalid item or missing ID" error.
\<close>

theorem update_excludes_id_from_set_and_uses_it_in_where:
  assumes "truthy (collectionName b)" and "item b = JObj kvs" and "distinct (map fst kvs)"
  shows "(escapeId (collectionName b) = Some escapedTable \<and> truthy (lookup kvs ''_id'')
          \<and> filter (\<lambda>kv. fst kv \<noteq> ''_id'') kvs \<noteq> [] \<longrightarrow>
            post_data_update b =
              Execute (''UPDATE '' @ escapedTable @ '' SET ''
                       @ join '', '' (map (\<lambda>kv. quoteId (fst kv) @ '' = ?'')
                                        (filter (\<lambda>kv. fst kv \<noteq> ''_id'') kvs))
                       @ '' WHERE _id = ?'')
                      (map snd (filter (\<lambda>kv. fst kv \<noteq> ''_id'') kvs) @ [lookup kvs ''_id'']))
    \<and> (escapeId (collectionName b) = Some escapedTable \<and> truthy (lookup kvs ''_id'')
          \<and> filter (\<lambda>kv. fst kv \<noteq> ''_id'') kvs = [] \<longrightarrow>
            post_data_update b = Reject 400 NoFieldsToUpdate)
    \<and> (\<not> truthy (lookup kvs ''_id'') \<longrightarrow>
            post_data_update b = Reject 400 InvalidItemOrMissingId)
    \<and> post_data_update update_example =
          Execute ''UPDATE `t` SET `name` = ? WHERE _id = ?'' [JStr ''b'', JNum 7]"
proof (intro conjI impI)
  assume a: "escapeId (collectionName b) = Some escapedTable \<and> truthy (lookup kvs ''_id'')
          \<and> filter (\<lambda>kv. fst kv \<noteq> ''_id'') kvs \<noteq> []"
  then have "truthy (lookup kvs ''_id'')" and "escapeId (collectionName b) = Some escapedTable"
    by simp_all
  from data_update_plan [OF assms this] a
  show "post_data_update b =
              Execute (''UPDATE '' @ escapedTable @ '' SET ''
                       @ join '', '' (map (\<lambda>kv. quoteId (fst kv) @ '' = ?'')
                                        (filter (\<lambda>kv. fst kv \<noteq> ''_id'') kvs))
                       @ '' WHERE _id = ?'')
                      (map snd (filter (\<lambda>kv. fst kv \<noteq> ''_id'') kvs) @ [lookup kvs ''_id''])"
    by simp
next
  assume a: "escapeId (collectionName b) = Some escapedTable \<and> truthy (lookup kvs ''_id'')
          \<and> filter (\<lambda>kv. fst kv \<noteq> ''_id'') kvs = []"
  then have "truthy (lookup kvs ''_id'')" and "escapeId (collectionName b) = Some escapedTable"
    by simp_all
  from data_update_plan [OF assms this] a
  show "post_data_update b = Reject 400 NoFieldsToUpdate"
    by simp
next
  assume "\<not> truthy (lookup kvs ''_id'')"
  then show "post_data_update b = Reject 400 InvalidItemOrMissingId"
    using assms by (simp add: post_data_update_def)
next
  show "post_data_update update_example =
          Execute ''UPDATE `t` SET `name` = ? WHERE _id = ?'' [JStr ''b'', JNum 7]"
    by (simp add: post_data_update_def update_example_def empty_body_def keys_def
          object_values_def without_index_def enumerate_eq_zip quoteId_def replaceAll_def)
qed

text \<open>Claim C4, the amended statement at an item that names \<^verbatim>\<open>_id\<close> between two other
  fields, and at an item that has \<^verbatim>\<open>_id\<close> alone.\<close>

theorem update_excludes_id_from_set_and_uses_it_in_where_witness:
  "post_data_update (empty_body\<lparr>collectionName := JStr ''t'',
       item := JObj [(''name'', JStr ''b''), (''_id'', JNum 7), (''age'', JNull)]\<rparr>)
     = Execute ''UPDATE `t` SET `name` = ?, `age` = ? WHERE _id = ?'' [JStr ''b'', JNull, JNum 7]
   \<and> post_data_update (empty_body\<lparr>collectionName := JStr ''t'', item := JObj [(''_id'', JNum 7)]\<rparr>)
     = Reject 400 NoFieldsToUpdate"
  using update_excludes_id_from_set_and_uses_it_in_where
    [of "empty_body\<lparr>collectionName := JStr ''t'',
           item := JObj [(''name'', JStr ''b''), (''_id'', JNum 7), (''age'', JNull)]\<rparr>"
        "[(''name'', JStr ''b''), (''_id'', JNum 7), (''age'', JNull)]" "''`t`''"]
    update_excludes_id_from_set_and_uses_it_in_where
    [of "empty_body\<lparr>collectionName := JStr ''t'', item := JObj [(''_id'', JNum 7)]\<rparr>"
        "[(''_id'', JNum 7)]" "''`t`''"]
  by (simp add: empty_body_def quoteId_def replaceAll_def)

section \<open>Filter translation\<close>

lemma conditions_value:
  "conditions (JObj kvs) = join '' AND '' (map (\<lambda>kv. quoteId (fst kv) @ '' = ?'') kvs)"
  by (simp add: conditions_def case_prod_unfold)

lemma items_find_flat:
  assumes "filter' b = JObj kvs" and "escapeId (table b) = Some escapedTable"
  shows "post_items_find b =
      Execute (''SELECT * FROM '' @ escapedTable @ '' WHERE ''
               @ join '' AND '' (map (\<lambda>kv. quoteId (fst kv) @ '' = ?'') kvs)
               @ (if truthy (limit b) then '' LIMIT ?'' else [])
               @ (if truthy (offset b) then '' OFFSET ?'' else []))
              (map snd kvs
               @ (if truthy (limit b) then [limit b] else [])
               @ (if truthy (offset b) then [offset b] else []))"
  using assms
  by (simp add: post_items_find_def conditions_value object_values_def Let_def)

lemma data_count_flat:
  assumes "truthy (collectionName b)" and "filter' b = JObj kvs" and "kvs \<noteq> []"
    and "escapeId (collectionName b) = Some escapedTable"
  shows "post_data_count b =
      Execute (''SELECT COUNT(*) AS totalCount FROM '' @ escapedTable @ '' WHERE ''
               @ join '' AND '' (map (\<lambda>kv. quoteId (fst kv) @ '' = ?'') kvs))
              (map snd kvs)"
  using assms by (simp add: post_data_count_def conditions_value keys_def object_values_def)

lemma data_find_v1_flat:
  assumes "truthy (collectionName b)" and "filter' b = JObj kvs" and "kvs \<noteq> []"
    and "escapeId (collectionName b) = Some escapedTable"
    and "order_by (sort' b) = Some orderBy"
  shows "post_data_find_v1 b =
      Execute (''SELECT * FROM '' @ escapedTable @ '' WHERE ''
               @ join '' AND '' (map (\<lambda>kv. quoteId (fst kv) @ '' = ?'') kvs)
               @ orderBy
               @ (if typeof_number (skip b) \<and> typeof_number (limit b)
                  then '' LIMIT ?, ?'' else []))
              (map snd kvs
               @ (if typeof_number (skip b) \<and> typeof_number (limit b)
                  then [skip b, limit b] else []))"
  using assms
  by (simp add: data_find_v1_plan [OF assms(1) assms(4) assms(5)] conditions_value keys_def
        object_values_def)

lemma map_const_replicate: "map (\<lambda>_. c) xs = replicate (length xs) c"
  by (induction xs) simp_all

lemma where_clause_eq:
  assumes "lookup kvs ''operator'' = JStr ''$eq''"
    and "escapeId (lookup kvs ''fieldName'') = Some escapedField"
  shows "where_clause (JObj kvs) =
      Inr ('' WHERE '' @ escapedField @ '' = ?'', [lookup kvs ''value''])"
  using assms by (cases kvs) (simp_all add: where_clause_def keys_def)

lemma where_clause_hasSome:
  assumes "lookup kvs ''operator'' = JStr ''$hasSome''"
    and "lookup kvs ''value'' = JArr vs"
    and "escapeId (lookup kvs ''fieldName'') = Some escapedField"
  shows "where_clause (JObj kvs) =
      Inr ('' WHERE '' @ escapedField @ '' IN (''
           @ join '','' (replicate (length vs) ''?'') @ '')'', vs)"
  using assms by (cases kvs) (simp_all add: where_clause_def keys_def map_const_replicate)

lemma where_clause_hasSome_not_array:
  assumes "lookup kvs ''operator'' = JStr ''$hasSome''"
    and "\<not> isArray (lookup kvs ''value'')"
  shows "where_clause (JObj kvs) = Inl (400, HasSomeNeedsArray)"
  using assms
  by (cases kvs; cases "lookup kvs ''value''") (simp_all add: where_clause_def keys_def)

lemma where_clause_other_operator:
  assumes "kvs \<noteq> []" and "lookup kvs ''operator'' \<noteq> JStr ''$hasSome''"
    and "lookup kvs ''operator'' \<noteq> JStr ''$eq''"
  shows "where_clause (JObj kvs) = Inl (400, InvalidFilterOperator)"
  using assms by (simp add: where_clause_def keys_def)

lemma data_find_rejects:
  "truthy (collectionName b) \<Longrightarrow> escapeId (collectionName b) = Some escapedTable \<Longrightarrow>
   where_clause (filter' b) = Inl (status, msg) \<Longrightarrow> post_data_find b = Reject status msg"
  by (simp add: post_data_find_def)

text \<open>
  Claim C2, as stated, at the flat filter \<^verbatim>\<open>{name: "a"}\<close> given to the data/find handler
  that knows the structured clause: the filter does not become a WHERE clause; the request
  is rejected with status 400, because a flat mapping has no \<^verbatim>\<open>operator\<close>.
\<close>

theorem data_find_rejects_flat_filter_counterexample:
  "post_data_find find_flat_filter = Reject 400 InvalidFilterOperator"
  by (simp add: post_data_find_def find_flat_filter_def empty_body_def where_clause_def keys_def
        quoteId_def replaceAll_def)

text \<open>
  Claim C2, amended: which translation a filter gets depends on the handler, and no
  handler has both. The filter is a non-empty object, and the table or collection name
  and the clause's field name are names that \<^verbatim>\<open>mysql.escapeId\<close> escapes without throwing
  (as it does every string).

  \<^item> The handlers of items/find and data/count and the data/find handler of the tree
    \<^verbatim>\<open>WIX - HOSTINGER - 1.0\<close> translate a flat mapping, a filter with no key
    \<^verbatim>\<open>operator\<close>: the WHERE clause is the conjunction, joined by \<^verbatim>\<open>AND\<close>, of one
    comparison \<^verbatim>\<open>`key` = ?\<close> per entry, and the values of the entries are the parameters,
    in the same order. The statement is the SELECT of the table, this WHERE clause, and
    then what the handler appends for the rest of the request, with its parameters after
    those of the filter: in items/find \<^verbatim>\<open>LIMIT ?\<close> and \<^verbatim>\<open>OFFSET ?\<close> for a request with a
    limit, or with neither; in data/find the text of its sort block and \<^verbatim>\<open>LIMIT ?, ?\<close>
    when \<^verbatim>\<open>skip\<close> and \<^verbatim>\<open>limit\<close> are both numbers; in data/count nothing.

  \<^item> The other data/find handler translates one clause \<^verbatim>\<open>{operator, fieldName, value}\<close>:
    the operator \<^verbatim>\<open>$eq\<close> gives \<^verbatim>\<open>WHERE `fieldName` = ?\<close> with the value as parameter; the
    operator \<^verbatim>\<open>$hasSome\<close> with a non-empty array gives \<^verbatim>\<open>WHERE `fieldName` IN (?,...)\<close>
    with one placeholder per element and the elements as parameters; \<^verbatim>\<open>$hasSome\<close> with
    a value that is not an array is rejected with status 400; and every other operator, a
    missing one included (so every flat mapping), is rejected with status 400, never
    ignored.
\<close>

theorem filter_translation_per_handler:
  assumes "filter' b = JObj kvs" and "kvs \<noteq> []"
  shows
   "(''operator'' \<notin> set (map fst kvs) \<and> escapeId (table b) = Some escapedTable
       \<and> (truthy (limit b) \<or> \<not> truthy (offset b)) \<longrightarrow>
      post_items_find b =
        Execute (''SELECT * FROM '' @ escapedTable @ '' WHERE ''
                 @ join '' AND '' (map (\<lambda>kv. quoteId (fst kv) @ '' = ?'') kvs)
                 @ (if truthy (limit b) then '' LIMIT ?'' else [])
                 @ (if truthy (offset b) then '' OFFSET ?'' else []))
                (map snd kvs
                 @ (if truthy (limit b) then [limit b] else [])
                 @ (if truthy (offset b) then [offset b] else [])))
   \<and> (''operator'' \<notin> set (map fst kvs) \<and> truthy (collectionName b)
       \<and> escapeId (collectionName b) = Some escapedTable \<longrightarrow>
      post_data_count b =
        Execute (''SELECT COUNT(*) AS totalCount FROM '' @ escapedTable @ '' WHERE ''
                 @ join '' AND '' (map (\<lambda>kv. quoteId (fst kv) @ '' = ?'') kvs))
                (map snd kvs))
   \<and> (''operator'' \<notin> set (map fst kvs) \<and> truthy (collectionName b)
       \<and> escapeId (collectionName b) = Some escapedTable
       \<and> order_by (sort' b) = Some orderBy \<longrightarrow>
      post_data_find_v1 b =
        Execute (''SELECT * FROM '' @ escapedTable @ '' WHERE ''
                 @ join '' AND '' (map (\<lambda>kv. quoteId (fst kv) @ '' = ?'') kvs)
                 @ orderBy
                 @ (if typeof_number (skip b) \<and> typeof_number (limit b)
                    then '' LIMIT ?, ?'' else []))
                (map snd kvs
                 @ (if typeof_number (skip b) \<and> typeof_number (limit b)
                    then [skip b, limit b] else [])))
   \<and> (truthy (collectionName b) \<and> escapeId (collectionName b) = Some escapedTable
       \<and> order_by (sort' b) = Some orderBy
       \<and> lookup kvs ''operator'' = JStr ''$eq''
       \<and> escapeId (lookup kvs ''fieldName'') = Some escapedField \<longrightarrow>
      post_data_find b =
        Execute (''SELECT * FROM '' @ escapedTable
                 @ ('' WHERE '' @ escapedField @ '' = ?'')
                 @ orderBy
                 @ (if typeof_number (skip b) \<and> typeof_number (limit b)
                    then '' LIMIT ?, ?'' else []))
                ([lookup kvs ''value'']
                 @ (if typeof_number (skip b) \<and> typeof_number (limit b)
                    then [skip b, limit b] else [])))
   \<and> (truthy (collectionName b) \<and> escapeId (collectionName b) = Some escapedTable
       \<and> order_by (sort' b) = Some orderBy
       \<and> lookup kvs ''operator'' = JStr ''$hasSome''
       \<and> lookup kvs ''value'' = JArr vs \<and> vs \<noteq> []
       \<and> escapeId (lookup kvs ''fieldName'') = Some escapedField \<longrightarrow>
      post_data_find b =
        Execute (''SELECT * FROM '' @ escapedTable
                 @ ('' WHERE '' @ escapedField @ '' IN (''
                    @ join '','' (replicate (length vs) ''?'') @ '')'')
                 @ orderBy
                 @ (if typeof_number (skip b) \<and> typeof_number (limit b)
                    then '' LIMIT ?, ?'' else []))
                (vs
                 @ (if typeof_number (skip b) \<and> typeof_number (limit b)
                    then [skip b, limit b] else [])))
   \<and> (truthy (collectionName b) \<and> escapeId (collectionName b) = Some escapedTable
       \<and> lookup kvs ''operator'' = JStr ''$hasSome''
       \<and> \<not> isArray (lookup kvs ''value'') \<longrightarrow>
      post_data_find b = Reject 400 HasSomeNeedsArray)
   \<and> (truthy (collectionName b) \<and> escapeId (collectionName b) = Some escapedTable
       \<and> lookup kvs ''operator'' \<noteq> JStr ''$hasSome''
       \<and> lookup kvs ''operator'' \<noteq> JStr ''$eq'' \<longrightarrow>
      post_data_find b = Reject 400 InvalidFilterOperator)"
proof (intro conjI impI)
  assume "''operator'' \<notin> set (map fst kvs) \<and> escapeId (table b) = Some escapedTable
       \<and> (truthy (limit b) \<or> \<not> truthy (offset b))"
  then have "escapeId (table b) = Some escapedTable" by simp
  then show "post_items_find b =
        Execute (''SELECT * FROM '' @ escapedTable @ '' WHERE ''
                 @ join '' AND '' (map (\<lambda>kv. quoteId (fst kv) @ '' = ?'') kvs)
                 @ (if truthy (limit b) then '' LIMIT ?'' else [])
                 @ (if truthy (offset b) then '' OFFSET ?'' else []))
                (map snd kvs
                 @ (if truthy (limit b) then [limit b] else [])
                 @ (if truthy (offset b) then [offset b] else []))"
    by (rule items_find_flat [OF assms(1)])
next
  assume "''operator'' \<notin> set (map fst kvs) \<and> truthy (collectionName b)
       \<and> escapeId (collectionName b) = Some escapedTable"
  then have "truthy (collectionName b)" "escapeId (collectionName b) = Some escapedTable"
    by simp_all
  then show "post_data_count b =
        Execute (''SELECT COUNT(*) AS totalCount FROM '' @ escapedTable @ '' WHERE ''
                 @ join '' AND '' (map (\<lambda>kv. quoteId (fst kv) @ '' = ?'') kvs))
                (map snd kvs)"
    using assms by (intro data_count_flat)
next
  assume "''operator'' \<notin> set (map fst kvs) \<and> truthy (collectionName b)
       \<and> escapeId (collectionName b) = Some escapedTable
       \<and> order_by (sort' b) = Some orderBy"
  then have "truthy (collectionName b)" "escapeId (collectionName b) = Some escapedTable"
    "order_by (sort' b) = Some orderBy"
    by simp_all
  then show "post_data_find_v1 b =
        Execute (''SELECT * FROM '' @ escapedTable @ '' WHERE ''
                 @ join '' AND '' (map (\<lambda>kv. quoteId (fst kv) @ '' = ?'') kvs)
                 @ orderBy
                 @ (if typeof_number (skip b) \<and> typeof_number (limit b)
                    then '' LIMIT ?, ?'' else []))
                (map snd kvs
                 @ (if typeof_number (skip b) \<and> typeof_number (limit b)
                    then [skip b, limit b] else []))"
    using assms by (intro data_find_v1_flat)
next
  assume a: "truthy (collectionName b) \<and> escapeId (collectionName b) = Some escapedTable
       \<and> order_by (sort' b) = Some orderBy
       \<and> lookup kvs ''operator'' = JStr ''$eq''
       \<and> escapeId (lookup kvs ''fieldName'') = Some escapedField"
  then have t: "truthy (collectionName b)" "escapeId (collectionName b) = Some escapedTable"
    and ob: "order_by (sort' b) = Some orderBy"
    by simp_all
  from a have w: "where_clause (filter' b) =
      Inr ('' WHERE '' @ escapedField @ '' = ?'', [lookup kvs ''value''])"
    unfolding assms(1) by (intro where_clause_eq) simp_all
  show "post_data_find b =
        Execute (''SELECT * FROM '' @ escapedTable
                 @ ('' WHERE '' @ escapedField @ '' = ?'')
                 @ orderBy
                 @ (if typeof_number (skip b) \<and> typeof_number (limit b)
                    then '' LIMIT ?, ?'' else []))
                ([lookup kvs ''value'']
                 @ (if typeof_number (skip b) \<and> typeof_number (limit b)
                    then [skip b, limit b] else []))"
    by (rule data_find_plan [OF t w ob])
next
  assume a: "truthy (collectionName b) \<and> escapeId (collectionName b) = Some escapedTable
       \<and> order_by (sort' b) = Some orderBy
       \<and> lookup kvs ''operator'' = JStr ''$hasSome''
       \<and> lookup kvs ''value'' = JArr vs \<and> vs \<noteq> []
       \<and> escapeId (lookup kvs ''fieldName'') = Some escapedField"
  then have t: "truthy (collectionName b)" "escapeId (collectionName b) = Some escapedTable"
    and ob: "order_by (sort' b) = Some orderBy"
    by simp_all
  from a have w: "where_clause (filter' b) =
      Inr ('' WHERE '' @ escapedField @ '' IN (''
           @ join '','' (replicate (length vs) ''?'') @ '')'', vs)"
    unfolding assms(1) by (intro where_clause_hasSome) simp_all
  show "post_data_find b =
        Execute (''SELECT * FROM '' @ escapedTable
                 @ ('' WHERE '' @ escapedField @ '' IN (''
                    @ join '','' (replicate (length vs) ''?'') @ '')'')
                 @ orderBy
                 @ (if typeof_number (skip b) \<and> typeof_number (limit b)
                    then '' LIMIT ?, ?'' else []))
                (vs
                 @ (if typeof_number (skip b) \<and> typeof_number (limit b)
                    then [skip b, limit b] else []))"
    by (rule data_find_plan [OF t w ob])
next
  assume a: "truthy (collectionName b) \<and> escapeId (collectionName b) = Some escapedTable
       \<and> lookup kvs ''operator'' = JStr ''$hasSome''
       \<and> \<not> isArray (lookup kvs ''value'')"
  then have t: "truthy (collectionName b)" "escapeId (collectionName b) = Some escapedTable"
    by simp_all
  from a have "where_clause (filter' b) = Inl (400, HasSomeNeedsArray)"
    unfolding assms(1) by (intro where_clause_hasSome_not_array) simp_all
  then show "post_data_find b = Reject 400 HasSomeNeedsArray"
    by (rule data_find_rejects [OF t])
next
  assume a: "truthy (collectionName b) \<and> escapeId (collectionName b) = Some escapedTable
       \<and> lookup kvs ''operator'' \<noteq> JStr ''$hasSome''
       \<and> lookup kvs ''operator'' \<noteq> JStr ''$eq''"
  then have t: "truthy (collectionName b)" "escapeId (collectionName b) = Some escapedTable"
    by simp_all
  from a have "where_clause (filter' b) = Inl (400, InvalidFilterOperator)"
    unfolding assms(1) using assms(2) by (intro where_clause_other_operator) simp_all
  then show "post_data_find b = Reject 400 InvalidFilterOperator"
    by (rule data_find_rejects [OF t])
qed

text \<open>
  Claim C2, the amended statement at a flat filter with two entries given to items/find,
  data/count and the first data/find, and, given to the other data/find, at an \<^verbatim>\<open>$eq\<close>
  clause, at a \<^verbatim>\<open>$hasSome\<close> clause with three elements, at a \<^verbatim>\<open>$hasSome\<close> clause whose
  value is a number and at a clause with the operator \<^verbatim>\<open>$gt\<close>.
\<close>

theorem filter_translation_per_handler_witness:
  "post_items_find items_flat_example =
     Execute ''SELECT * FROM `t` WHERE `name` = ? AND `age` = ? LIMIT ?''
             [JStr ''a'', JNum 5, JNum 10]
   \<and> post_data_count flat_example =
     Execute ''SELECT COUNT(*) AS totalCount FROM `t` WHERE `name` = ? AND `age` = ?''
             [JStr ''a'', JNum 5]
   \<and> post_data_find_v1 flat_example =
     Execute ''SELECT * FROM `t` WHERE `name` = ? AND `age` = ?'' [JStr ''a'', JNum 5]
   \<and> post_data_find eq_example = Execute ''SELECT * FROM `t` WHERE `f` = ?'' [JNum 1]
   \<and> post_data_find hasSome_example =
     Execute ''SELECT * FROM `t` WHERE `f` IN (?,?,?)'' [JNum 1, JNum 2, JNum 3]
   \<and> post_data_find hasSome_scalar = Reject 400 HasSomeNeedsArray
   \<and> post_data_find gt_example = Reject 400 InvalidFilterOperator"
  using filter_translation_per_handler
      [where b = items_flat_example and kvs = "[(''name'', JStr ''a''), (''age'', JNum 5)]"
         and escapedTable = "''`t`''"]
    filter_translation_per_handler
      [where b = flat_example and kvs = "[(''name'', JStr ''a''), (''age'', JNum 5)]"
         and escapedTable = "''`t`''" and orderBy = "[]"]
    filter_translation_per_handler
      [where b = eq_example
         and kvs = "[(''operator'', JStr ''$eq''), (''fieldName'', JStr ''f''),
                     (''value'', JNum 1)]"
         and escapedTable = "''`t`''" and orderBy = "[]" and escapedField = "''`f`''"]
    filter_translation_per_handler
      [where b = hasSome_example
         and kvs = "[(''operator'', JStr ''$hasSome''), (''fieldName'', JStr ''f''),
                     (''value'', JArr [JNum 1, JNum 2, JNum 3])]"
         and escapedTable = "''`t`''" and orderBy = "[]" and escapedField = "''`f`''"
         and vs = "[JNum 1, JNum 2, JNum 3]"]
    filter_translation_per_handler
      [where b = hasSome_scalar
         and kvs = "[(''operator'', JStr ''$hasSome''), (''fieldName'', JStr ''f''),
                     (''value'', JNum 1)]"
         and escapedTable = "''`t`''"]
    filter_translation_per_handler
      [where b = gt_example
         and kvs = "[(''operator'', JStr ''$gt''), (''fieldName'', JStr ''f''),
                     (''value'', JNum 1)]"
         and escapedTable = "''`t`''"]
  by (simp add: items_flat_example_def flat_example_def eq_example_def hasSome_example_def
        hasSome_scalar_def gt_example_def clause_def empty_body_def order_by_def
        quoteId_def replaceAll_def)

text \<open>
  Claim C8, at the clause \<^verbatim>\<open>{operator: "$hasSome", fieldName: "f", value: []}\<close>: the
  handler does not reject the request and does not build a clause that is always false.
  It calls \<^verbatim>\<open>executeQuery\<close> with a statement whose IN-list is empty, \<^verbatim>\<open>IN ()\<close>, and with
  no parameters. MySQL does not accept an empty IN-list, so the statement fails and the
  \<^verbatim>\<open>catch\<close> block answers 500.
\<close>

theorem data_find_hasSome_empty_array:
  "post_data_find hasSome_empty = Execute ''SELECT * FROM `t` WHERE `f` IN ()'' []"
  by (simp add: hasSome_empty_def clause_def empty_body_def post_data_find_def where_clause_def
        order_by_def paginate_def keys_def quoteId_def replaceAll_def)

section \<open>Schema type classification\<close>

lemma startsWith_iff: "startsWith s sub \<longleftrightarrow> (\<exists>post. s = sub @ post)"
  by (induction s sub rule: startsWith.induct) auto

lemma js_includes_iff: "js_includes s sub \<longleftrightarrow> (\<exists>pre post. s = pre @ sub @ post)"
proof (induction s)
  case Nil
  show ?case by auto
next
  case (Cons x xs)
  show ?case
  proof
    assume "js_includes (x # xs) sub"
    then consider "startsWith (x # xs) sub" | "js_includes xs sub" by auto
    then show "\<exists>pre post. x # xs = pre @ sub @ post"
    proof cases
      case 1
      then obtain post where "x # xs = sub @ post" by (auto simp add: startsWith_iff)
      then have "x # xs = [] @ sub @ post" by simp
      then show ?thesis by blast
    next
      case 2
      then obtain pre post where "xs = pre @ sub @ post" using Cons.IH by auto
      then have "x # xs = (x # pre) @ sub @ post" by simp
      then show ?thesis by blast
    qed
  next
    assume "\<exists>pre post. x # xs = pre @ sub @ post"
    then obtain pre post where eq: "x # xs = pre @ sub @ post" by auto
    show "js_includes (x # xs) sub"
    proof (cases pre)
      case Nil
      with eq have "startsWith (x # xs) sub" by (auto simp add: startsWith_iff)
      then show ?thesis by simp
    next
      case (Cons p pre')
      with eq have "xs = pre' @ sub @ post" by simp
      then have "js_includes xs sub" using Cons.IH by auto
      then show ?thesis by simp
    qed
  qed
qed

lemma includes_datetime_date: "js_includes s ''datetime'' \<Longrightarrow> js_includes s ''date''"
proof -
  assume "js_includes s ''datetime''"
  then obtain pre post where "s = pre @ ''datetime'' @ post"
    by (auto simp add: js_includes_iff)
  then have "s = pre @ ''date'' @ (''time'' @ post)" by simp
  then show ?thesis unfolding js_includes_iff by blast
qed

text \<open>
  Claim C6: the classification depends on the type only through its lower-case form and
  tests it for substrings (\<open>js_includes\<close> holds exactly of the contiguous substrings). The
  rules are tried in the order in which the claim lists them and the first that matches
  decides: a type containing \<^verbatim>\<open>int\<close> is a number; otherwise one containing
  \<^verbatim>\<open>varchar\<close>, \<^verbatim>\<open>text\<close> or \<^verbatim>\<open>char\<close> is a text; otherwise one containing \<^verbatim>\<open>date\<close> or
  \<^verbatim>\<open>time\<close> is a datetime; otherwise one containing \<^verbatim>\<open>float\<close>, \<^verbatim>\<open>double\<close> or
  \<^verbatim>\<open>decimal\<close> is a number; otherwise one containing \<^verbatim>\<open>bool\<close> is a boolean; anything
  else is \<^verbatim>\<open>any\<close>. The column \<^verbatim>\<open>{Field: "age", Type: "int(11)", Null: "NO", Key: ""}\<close>
  is mapped by the column loop of schemas/list to the field \<^verbatim>\<open>age\<close> with type
  \<^verbatim>\<open>number\<close>, required true and unique false.
\<close>

theorem type_classification_by_substring_of_lowercased_type:
  "(\<forall>s sub. js_includes s sub \<longleftrightarrow> (\<exists>pre post. s = pre @ sub @ post))
   \<and> (js_includes (toLowerCase t) ''int'' \<longrightarrow> mapMySQLTypeToWixType t = ''number'')
   \<and> (\<not> js_includes (toLowerCase t) ''int''
       \<and> (js_includes (toLowerCase t) ''varchar'' \<or> js_includes (toLowerCase t) ''text''
          \<or> js_includes (toLowerCase t) ''char'') \<longrightarrow> mapMySQLTypeToWixType t = ''text'')
   \<and> (\<not> js_includes (toLowerCase t) ''int''
       \<and> \<not> js_includes (toLowerCase t) ''varchar'' \<and> \<not> js_includes (toLowerCase t) ''text''
       \<and> \<not> js_includes (toLowerCase t) ''char''
       \<and> (js_includes (toLowerCase t) ''date'' \<or> js_includes (toLowerCase t) ''time'')
       \<longrightarrow> mapMySQLTypeToWixType t = ''datetime'')
   \<and> (\<not> js_includes (toLowerCase t) ''int''
       \<and> \<not> js_includes (toLowerCase t) ''varchar'' \<and> \<not> js_includes (toLowerCase t) ''text''
       \<and> \<not> js_includes (toLowerCase t) ''char''
       \<and> \<not> js_includes (toLowerCase t) ''date'' \<and> \<not> js_includes (toLowerCase t) ''time''
       \<and> (js_includes (toLowerCase t) ''float'' \<or> js_includes (toLowerCase t) ''double''
          \<or> js_includes (toLowerCase t) ''decimal'')
       \<longrightarrow> mapMySQLTypeToWixType t = ''number'')
   \<and> (\<not> js_includes (toLowerCase t) ''int''
       \<and> \<not> js_includes (toLowerCase t) ''varchar'' \<and> \<not> js_includes (toLowerCase t) ''text''
       \<and> \<not> js_includes (toLowerCase t) ''char''
       \<and> \<not> js_includes (toLowerCase t) ''date'' \<and> \<not> js_includes (toLowerCase t) ''time''
       \<and> \<not> js_includes (toLowerCase t) ''float'' \<and> \<not> js_includes (toLowerCase t) ''double''
       \<and> \<not> js_includes (toLowerCase t) ''decimal''
       \<and> js_includes (toLowerCase t) ''bool''
       \<longrightarrow> mapMySQLTypeToWixType t = ''boolean'')
   \<and> (\<not> js_includes (toLowerCase t) ''int''
       \<and> \<not> js_includes (toLowerCase t) ''varchar'' \<and> \<not> js_includes (toLowerCase t) ''text''
       \<and> \<not> js_includes (toLowerCase t) ''char''
       \<and> \<not> js_includes (toLowerCase t) ''date'' \<and> \<not> js_includes (toLowerCase t) ''time''
       \<and> \<not> js_includes (toLowerCase t) ''float'' \<and> \<not> js_includes (toLowerCase t) ''double''
       \<and> \<not> js_includes (toLowerCase t) ''decimal''
       \<and> \<not> js_includes (toLowerCase t) ''bool''
       \<longrightarrow> mapMySQLTypeToWixType t = ''any'')
   \<and> (\<forall>u. toLowerCase u = toLowerCase t \<longrightarrow> mapMySQLTypeToWixType u = mapMySQLTypeToWixType t)
   \<and> list_column [] (column ''age'' ''int(11)'' ''NO'' []) =
        Some [(''age'', JObj [(''displayName'', JStr ''age''), (''type'', JStr ''number''),
                              (''required'', JBool True), (''unique'', JBool False),
                              (''queryOperators'', other_operators)])]"
proof -
  have example: "list_column [] (column ''age'' ''int(11)'' ''NO'' []) =
        Some [(''age'', JObj [(''displayName'', JStr ''age''), (''type'', JStr ''number''),
                              (''required'', JBool True), (''unique'', JBool False),
                              (''queryOperators'', other_operators)])]"
    by (simp add: list_column_def column_def or_else_def mapMySQLTypeToWixType_def
          toLowerCase_def lower_char_def Let_def)
  have "\<forall>u. toLowerCase u = toLowerCase t \<longrightarrow> mapMySQLTypeToWixType u = mapMySQLTypeToWixType t"
    by (simp add: mapMySQLTypeToWixType_def)
  with example show ?thesis
    using includes_datetime_date [of "toLowerCase t"]
    by (auto simp add: js_includes_iff [symmetric] mapMySQLTypeToWixType_def Let_def)
qed

text \<open>Claim C6 at the types \<^verbatim>\<open>VARCHAR(255)\<close>, \<^verbatim>\<open>DateTime\<close>, \<^verbatim>\<open>decimal(10,2)\<close>,
  \<^verbatim>\<open>tinyint(1)\<close>, \<^verbatim>\<open>bool\<close> and \<^verbatim>\<open>json\<close>.\<close>

theorem type_classification_by_substring_of_lowercased_type_witness:
  "mapMySQLTypeToWixType ''VARCHAR(255)'' = ''text''
   \<and> mapMySQLTypeToWixType ''DateTime'' = ''datetime''
   \<and> mapMySQLTypeToWixType ''json'' = ''any''"
proof (intro conjI)
  have "\<not> js_includes (toLowerCase ''VARCHAR(255)'') ''int''
       \<and> (js_includes (toLowerCase ''VARCHAR(255)'') ''varchar''
          \<or> js_includes (toLowerCase ''VARCHAR(255)'') ''text''
          \<or> js_includes (toLowerCase ''VARCHAR(255)'') ''char'')"
    by (simp add: toLowerCase_def lower_char_def)
  then show "mapMySQLTypeToWixType ''VARCHAR(255)'' = ''text''"
    by (rule type_classification_by_substring_of_lowercased_type
          [of "''VARCHAR(255)''", THEN conjunct2, THEN conjunct2, THEN conjunct1, THEN mp])
  have "\<not> js_includes (toLowerCase ''DateTime'') ''int''
       \<and> \<not> js_includes (toLowerCase ''DateTime'') ''varchar''
       \<and> \<not> js_includes (toLowerCase ''DateTime'') ''text''
       \<and> \<not> js_includes (toLowerCase ''DateTime'') ''char''
       \<and> (js_includes (toLowerCase ''DateTime'') ''date''
          \<or> js_includes (toLowerCase ''DateTime'') ''time'')"
    by (simp add: toLowerCase_def lower_char_def)
  then show "mapMySQLTypeToWixType ''DateTime'' = ''datetime''"
    by (rule type_classification_by_substring_of_lowercased_type
          [of "''DateTime''", THEN conjunct2, THEN conjunct2, THEN conjunct2, THEN conjunct1,
           THEN mp])
  have "\<not> js_includes (toLowerCase ''json'') ''int''
       \<and> \<not> js_includes (toLowerCase ''json'') ''varchar''
       \<and> \<not> js_includes (toLowerCase ''json'') ''text''
       \<and> \<not> js_includes (toLowerCase ''json'') ''char''
       \<and> \<not> js_includes (toLowerCase ''json'') ''date''
       \<and> \<not> js_includes (toLowerCase ''json'') ''time''
       \<and> \<not> js_includes (toLowerCase ''json'') ''float''
       \<and> \<not> js_includes (toLowerCase ''json'') ''double''
       \<and> \<not> js_includes (toLowerCase ''json'') ''decimal''
       \<and> \<not> js_includes (toLowerCase ''json'') ''bool''"
    by (simp add: toLowerCase_def lower_char_def)
  then show "mapMySQLTypeToWixType ''json'' = ''any''"
    by (rule type_classification_by_substring_of_lowercased_type
          [of "''json''", THEN conjunct2, THEN conjunct2, THEN conjunct2, THEN conjunct2,
           THEN conjunct2, THEN conjunct2, THEN conjunct1, THEN mp])
qed

section \<open>Schemas/find and tables that do not exist\<close>

lemma schemas_loop_fails:
  "\<exists>t\<in>set ids. \<exists>escapedTable err. escapeId t = Some escapedTable
      \<and> fst (executeQuery w (''DESCRIBE '' @ escapedTable) []) = Inl err \<Longrightarrow>
     schemas_loop w ids schemas = None"
proof (induction ids arbitrary: schemas)
  case Nil
  then show ?case by simp
next
  case (Cons t ids)
  show ?case
  proof (cases "escapeId t")
    case None
    then show ?thesis by simp
  next
    case (Some escapedTable)
    show ?thesis
    proof (cases "fst (executeQuery w (''DESCRIBE '' @ escapedTable) [])")
      case (Inl err)
      then show ?thesis using Some by (simp add: Let_def)
    next
      case (Inr columnsResult)
      with Cons.prems Some
      have "\<exists>t\<in>set ids. \<exists>escapedTable err. escapeId t = Some escapedTable
          \<and> fst (executeQuery w (''DESCRIBE '' @ escapedTable) []) = Inl err"
        by auto
      then have rest: "\<And>acc. schemas_loop w ids acc = None" by (rule Cons.IH)
      show ?thesis
        using Inr Some by (simp add: Let_def rest split: jv.splits option.splits)
    qed
  qed
qed

text \<open>Whenever the DESCRIBE statement of one of the named tables fails, the whole
  request is answered with status 500 and no schema of any table.\<close>

lemma schemas_find_fails_when_a_describe_fails:
  assumes "schemaIds b = JArr ids"
    and "\<exists>t\<in>set ids. \<exists>escapedTable err. escapeId t = Some escapedTable
      \<and> fst (executeQuery w (''DESCRIBE '' @ escapedTable) []) = Inl err"
  shows "post_schemas_find w b = Failure 500 InternalError"
proof -
  from assms(2) have "ids \<noteq> []" by auto
  moreover from assms(2) have "schemas_loop w ids [] = None" by (rule schemas_loop_fails)
  ultimately show ?thesis by (simp add: post_schemas_find_def assms(1))
qed

text \<open>
  Claim C7, at the request that names the tables \<^verbatim>\<open>users\<close> and \<^verbatim>\<open>missing\<close> on a server
  that holds only \<^verbatim>\<open>users\<close>: the missing table is not skipped. Its DESCRIBE statement
  fails, \<^verbatim>\<open>executeQuery\<close> rethrows the error, the loop is left, and the handler's
  \<^verbatim>\<open>catch\<close> block answers 500 without the schema of \<^verbatim>\<open>users\<close>. The branch that the
  source comments as skipping a table that does not exist is taken only when
  \<^verbatim>\<open>executeQuery\<close> returns a value that is not an array.
\<close>

theorem schemas_find_missing_table_is_internal_error:
  "post_schemas_find users_only schemas_example = Failure 500 InternalError"
  by (simp add: schemas_example_def users_only_def empty_body_def post_schemas_find_def
        server_with_def executeQuery_def column_def quoteId_def replaceAll_def find_column_def
        or_else_def mapMySQLTypeToWixType_def toLowerCase_def lower_char_def Let_def)

section \<open>Every statement of the CRUD surface is parameterised\<close>

lemma par_Nil: "parameterised ids 0 []"
  unfolding parameterised_def by (rule exI [of _ "[]"]) (simp add: render_def)

lemma par_kw: "k \<in> set sql_keywords \<Longrightarrow> parameterised ids 0 k"
  unfolding parameterised_def by (rule exI [of _ "[Keyword k]"]) (simp add: render_def)

lemma par_id: "i \<in> ids \<Longrightarrow> escapeId i = Some escaped \<Longrightarrow> parameterised ids 0 escaped"
  unfolding parameterised_def by (rule exI [of _ "[Identifier i]"]) (simp add: render_def)

lemma par_key: "JStr key \<in> ids \<Longrightarrow> parameterised ids 0 (quoteId key)"
  by (rule par_id [of "JStr key"]) simp_all

lemma par_mark: "parameterised ids (Suc 0) ''?''"
  unfolding parameterised_def by (rule exI [of _ "[Placeholder]"]) (simp add: render_def)

lemma count_list_append': "count_list (xs @ ys) x = count_list xs x + count_list ys x"
  by (induction xs) simp_all

lemma those_append:
  "those xs = Some a \<Longrightarrow> those ys = Some b \<Longrightarrow> those (xs @ ys) = Some (a @ b)"
  by (induction xs arbitrary: a) (auto split: option.splits)

lemma render_append:
  "render ps = Some s \<Longrightarrow> render qs = Some t \<Longrightarrow> render (ps @ qs) = Some (s @ t)"
  by (auto simp add: render_def those_append)

lemma par_append:
  assumes "parameterised ids m s" and "parameterised ids n t"
  shows "parameterised ids (m + n) (s @ t)"
proof -
  from assms obtain ps qs where
    "render ps = Some s" "\<forall>p\<in>set ps. allowed ids p" "count_list ps Placeholder = m"
    "render qs = Some t" "\<forall>p\<in>set qs. allowed ids p" "count_list qs Placeholder = n"
    unfolding parameterised_def by blast
  then have "render (ps @ qs) = Some (s @ t) \<and> (\<forall>p\<in>set (ps @ qs). allowed ids p)
      \<and> count_list (ps @ qs) Placeholder = m + n"
    by (auto simp add: render_append count_list_append')
  then show ?thesis unfolding parameterised_def by blast
qed

lemma par_if:
  "(c \<Longrightarrow> parameterised ids m s) \<Longrightarrow> (\<not> c \<Longrightarrow> parameterised ids n t) \<Longrightarrow>
     parameterised ids (if c then m else n) (if c then s else t)"
  by simp

lemma par_cong: "parameterised ids m s \<Longrightarrow> m = n \<Longrightarrow> parameterised ids n s"
  by simp

lemma par_join:
  assumes sep: "parameterised ids 0 sep" and each: "\<And>x. x \<in> set xs \<Longrightarrow> parameterised ids k x"
  shows "parameterised ids (k * length xs) (join sep xs)"
  using each
proof (induction xs)
  case Nil
  show ?case by (simp add: par_Nil)
next
  case (Cons x xs)
  have x: "parameterised ids k x" by (rule Cons.prems) simp
  show ?case
  proof (cases xs)
    case Nil
    with x show ?thesis by simp
  next
    case (Cons y ys)
    have "parameterised ids (k * length xs) (join sep xs)"
      by (rule Cons.IH) (simp add: Cons.prems)
    then have "parameterised ids (k + (0 + k * length xs)) (x @ sep @ join sep xs)"
      by (intro par_append x sep)
    then show ?thesis by (simp add: Cons)
  qed
qed

lemma par_keywords:
  "parameterised ids 0 ''SELECT * FROM ''"
  "parameterised ids 0 ''SELECT COUNT(*) AS totalCount FROM ''"
  "parameterised ids 0 ''INSERT INTO ''"
  "parameterised ids 0 ''UPDATE ''"
  "parameterised ids 0 ''DELETE FROM ''"
  "parameterised ids 0 '' WHERE ''"
  "parameterised ids 0 '' WHERE _id = ''"
  "parameterised ids 0 '' = ''"
  "parameterised ids 0 '' AND ''"
  "parameterised ids 0 '' IN (''"
  "parameterised ids 0 '',''"
  "parameterised ids 0 '')''"
  "parameterised ids 0 '' ORDER BY ''"
  "parameterised ids 0 '' ASC''"
  "parameterised ids 0 '' DESC''"
  "parameterised ids 0 '', ''"
  "parameterised ids 0 '' LIMIT ''"
  "parameterised ids 0 '' OFFSET ''"
  "parameterised ids 0 '' (''"
  "parameterised ids 0 '') VALUES (''"
  "parameterised ids 0 '' SET ''"
  by (rule par_kw, simp add: sql_keywords_def)+

lemma key_identifier:
  "kv \<in> set (entries v) \<Longrightarrow> JStr (fst kv) \<in> field_names v"
  by (auto simp add: field_names_def keys_def)

lemma par_conditions:
  assumes "field_names f \<subseteq> ids"
  shows "parameterised ids (length (entries f)) (conditions f)"
proof -
  have form: "conditions f =
      join '' AND '' (map (\<lambda>kv. quoteId (fst kv) @ '' = '' @ ''?'') (entries f))"
    by (simp add: conditions_def case_prod_unfold)
  have "parameterised ids (Suc 0 * length (map (\<lambda>kv. quoteId (fst kv) @ '' = '' @ ''?'') (entries f)))
      (join '' AND '' (map (\<lambda>kv. quoteId (fst kv) @ '' = '' @ ''?'') (entries f)))"
  proof (rule par_join)
    show "parameterised ids 0 '' AND ''" by (rule par_keywords)
  next
    fix x assume "x \<in> set (map (\<lambda>kv. quoteId (fst kv) @ '' = '' @ ''?'') (entries f))"
    then obtain kv where kv: "kv \<in> set (entries f)"
      and x: "x = quoteId (fst kv) @ '' = '' @ ''?''" by auto
    from kv assms have "JStr (fst kv) \<in> ids" by (auto dest: key_identifier)
    then have "parameterised ids (0 + (0 + Suc 0)) (quoteId (fst kv) @ '' = '' @ ''?'')"
      by (intro par_append par_key par_keywords par_mark)
    then show "parameterised ids (Suc 0) x" by (simp add: x)
  qed
  then show ?thesis by (simp add: form)
qed

lemma identifiers_members:
  "table b \<in> identifiers b"
  "collectionName b \<in> identifiers b"
  "property (filter' b) ''fieldName'' \<in> identifiers b"
  "field_names (filter' b) \<subseteq> identifiers b"
  "field_names (item b) \<subseteq> identifiers b"
  "field_names (data b) \<subseteq> identifiers b"
  "field_names (or_else (item b) (data b)) \<subseteq> identifiers b"
  by (auto simp add: identifiers_def or_else_def)

lemma identifiers_sort:
  "sort' b = Some es \<Longrightarrow> e \<in> set es \<Longrightarrow> property e ''fieldName'' \<in> identifiers b"
  by (auto simp add: identifiers_def)

lemma items_find_parameterised:
  assumes "post_items_find b = Execute sql params"
  shows "parameterised (identifiers b) (length params) sql"
proof -
  let ?ids = "identifiers b"
  from assms obtain escapedTable where t: "escapeId (table b) = Some escapedTable"
    by (cases "escapeId (table b)") (simp_all add: post_items_find_def split: if_splits)
  have tab: "parameterised (identifiers b) 0 escapedTable"
    by (rule par_id [OF identifiers_members(1) t])
  have sql: "sql = ''SELECT * FROM '' @ escapedTable
      @ (if truthy (filter' b) then '' WHERE '' @ conditions (filter' b) else [])
      @ (if truthy (limit b) then '' LIMIT '' @ ''?'' else [])
      @ (if truthy (offset b) then '' OFFSET '' @ ''?'' else [])"
    and params: "length params = (if truthy (filter' b) then length (entries (filter' b)) else 0)
      + (if truthy (limit b) then 1 else 0) + (if truthy (offset b) then 1 else 0)"
    using assms t by (auto simp add: post_items_find_def Let_def object_values_def)
  have c: "parameterised ?ids (length (entries (filter' b))) (conditions (filter' b))"
    by (rule par_conditions) (rule identifiers_members)
  have "parameterised ?ids (0 + (0 + ((if truthy (filter' b) then 0 + length (entries (filter' b)) else 0)
        + ((if truthy (limit b) then 0 + Suc 0 else 0) + (if truthy (offset b) then 0 + Suc 0 else 0)))))
      (''SELECT * FROM '' @ escapedTable
      @ (if truthy (filter' b) then '' WHERE '' @ conditions (filter' b) else [])
      @ (if truthy (limit b) then '' LIMIT '' @ ''?'' else [])
      @ (if truthy (offset b) then '' OFFSET '' @ ''?'' else []))"
    by (intro par_append par_if par_keywords tab par_mark par_Nil c)
  then show ?thesis unfolding sql by (rule par_cong) (simp add: params)
qed

lemma data_count_parameterised:
  assumes "post_data_count b = Execute sql params"
  shows "parameterised (identifiers b) (length params) sql"
proof -
  let ?ids = "identifiers b"
  from assms obtain escapedTable where t: "escapeId (collectionName b) = Some escapedTable"
    by (cases "escapeId (collectionName b)") (simp_all add: post_data_count_def split: if_splits)
  have tab: "parameterised (identifiers b) 0 escapedTable"
    by (rule par_id [OF identifiers_members(2) t])
  let ?c = "truthy (filter' b) \<and> keys (filter' b) \<noteq> []"
  have sql: "sql = ''SELECT COUNT(*) AS totalCount FROM '' @ escapedTable
      @ (if ?c then '' WHERE '' @ conditions (filter' b) else [])"
    and params: "length params = (if ?c then length (entries (filter' b)) else 0)"
    using assms t by (auto simp add: post_data_count_def Let_def object_values_def split: if_splits)
  have c: "parameterised ?ids (length (entries (filter' b))) (conditions (filter' b))"
    by (rule par_conditions) (rule identifiers_members)
  have "parameterised ?ids (0 + (0 + (if ?c then 0 + length (entries (filter' b)) else 0)))
      (''SELECT COUNT(*) AS totalCount FROM '' @ escapedTable
      @ (if ?c then '' WHERE '' @ conditions (filter' b) else []))"
    by (intro par_append par_if par_keywords tab par_Nil c)
  then show ?thesis unfolding sql by (rule par_cong) (simp add: params)
qed

lemma those_Some_elem:
  "those (map f xs) = Some ys \<Longrightarrow> y \<in> set ys \<Longrightarrow> \<exists>x\<in>set xs. f x = Some y"
  by (induction xs arbitrary: ys) (auto split: option.splits)

lemma sort_condition_Some:
  assumes "sort_condition e = Some tok"
  shows "\<exists>escapedField. escapeId (property e ''fieldName'') = Some escapedField
           \<and> tok = escapedField
                 @ (if property e ''order'' = JStr ''ASC'' then '' ASC'' else '' DESC'')"
  using assms by (cases e) (auto simp add: Let_def split: option.splits)

lemma order_by_parameterised:
  assumes "order_by (sort' b) = Some orderBy"
  shows "parameterised (identifiers b) 0 orderBy"
proof (cases "sort' b")
  case None
  with assms show ?thesis by (simp add: order_by_def par_Nil)
next
  case (Some es)
  show ?thesis
  proof (cases "es = []")
    case True
    with assms Some show ?thesis by (simp add: order_by_def par_Nil)
  next
    case False
    with assms Some obtain toks where toks: "those (map sort_condition es) = Some toks"
      and ob: "orderBy = '' ORDER BY '' @ join '', '' toks"
      by (auto simp add: order_by_def split: option.splits)
    have "parameterised (identifiers b) (0 * length toks) (join '', '' toks)"
    proof (rule par_join)
      show "parameterised (identifiers b) 0 '', ''" by (rule par_keywords)
    next
      fix tok assume "tok \<in> set toks"
      with toks obtain e where e: "e \<in> set es" and "sort_condition e = Some tok"
        by (auto dest: those_Some_elem)
      then obtain escapedField
        where f: "escapeId (property e ''fieldName'') = Some escapedField"
        and tok: "tok = escapedField
           @ (if property e ''order'' = JStr ''ASC'' then '' ASC'' else '' DESC'')"
        by (auto dest: sort_condition_Some)
      have "property e ''fieldName'' \<in> identifiers b"
        using Some e by (rule identifiers_sort)
      then have field: "parameterised (identifiers b) 0 escapedField"
        using f by (rule par_id)
      have "parameterised (identifiers b) (0 + (if property e ''order'' = JStr ''ASC'' then 0 else 0))
          (escapedField
           @ (if property e ''order'' = JStr ''ASC'' then '' ASC'' else '' DESC''))"
        by (intro par_append par_if field par_keywords)
      then show "parameterised (identifiers b) 0 tok" by (simp add: tok)
    qed
    then have "parameterised (identifiers b) (0 + 0 * length toks) ('' ORDER BY '' @ join '', '' toks)"
      by (intro par_append par_keywords)
    then show ?thesis by (simp add: ob)
  qed
qed

lemma paginate_parameterised:
  assumes "paginate b (sql0, ps0) = (sql, params)" and "parameterised ids (length ps0) sql0"
  shows "parameterised ids (length params) sql"
proof (cases "typeof_number (skip b) \<and> typeof_number (limit b)")
  case True
  with assms(1) have sql: "sql = sql0 @ '' LIMIT '' @ ''?'' @ '', '' @ ''?''"
    and params: "length params = length ps0 + 2"
    by (auto simp add: paginate_def)
  have "parameterised ids (length ps0 + (0 + (Suc 0 + (0 + Suc 0))))
      (sql0 @ '' LIMIT '' @ ''?'' @ '', '' @ ''?'')"
    by (intro par_append par_keywords par_mark assms(2))
  then show ?thesis unfolding sql by (rule par_cong) (simp add: params)
next
  case False
  with assms show ?thesis by (auto simp add: paginate_def)
qed

lemma data_find_v1_parameterised:
  assumes "post_data_find_v1 b = Execute sql params"
  shows "parameterised (identifiers b) (length params) sql"
proof -
  let ?ids = "identifiers b"
  from assms obtain escapedTable where t: "escapeId (collectionName b) = Some escapedTable"
    by (cases "escapeId (collectionName b)") (simp_all add: post_data_find_v1_def split: if_splits)
  have tab: "parameterised (identifiers b) 0 escapedTable"
    by (rule par_id [OF identifiers_members(2) t])
  let ?c = "truthy (filter' b) \<and> keys (filter' b) \<noteq> []"
  let ?base = "''SELECT * FROM '' @ escapedTable
      @ (if ?c then '' WHERE '' @ conditions (filter' b) else [])"
  let ?ps = "if ?c then object_values (filter' b) else []"
  from assms t obtain orderBy where ob: "order_by (sort' b) = Some orderBy"
    and pag: "paginate b (?base @ orderBy, ?ps) = (sql, params)"
    by (auto simp add: post_data_find_v1_def Let_def split: if_splits option.splits prod.splits)
  have c: "parameterised ?ids (length (entries (filter' b))) (conditions (filter' b))"
    by (rule par_conditions) (rule identifiers_members)
  have "parameterised ?ids ((0 + (0 + (if ?c then 0 + length (entries (filter' b)) else 0))) + 0)
      (?base @ orderBy)"
    by (intro par_append par_if par_keywords tab par_Nil c order_by_parameterised [OF ob])
  then have "parameterised ?ids (length ?ps) (?base @ orderBy)"
    by (rule par_cong) (simp add: object_values_def)
  with pag show ?thesis by (rule paginate_parameterised)
qed

lemma where_clause_parameterised:
  assumes "where_clause f = Inr (condition, ps)" and "property f ''fieldName'' \<in> ids"
  shows "parameterised ids (length ps) condition"
proof -
  from assms(1) consider
      (none) "condition = []" "ps = []"
    | (eq) escapedField where "escapeId (property f ''fieldName'') = Some escapedField"
           "condition = '' WHERE '' @ escapedField @ '' = '' @ ''?''"
           "ps = [property f ''value'']"
    | (hasSome) escapedField vs where "escapeId (property f ''fieldName'') = Some escapedField"
           "condition = '' WHERE '' @ escapedField @ '' IN (''
              @ join '','' (map (\<lambda>_. ''?'') vs) @ '')''" "ps = vs"
    by (auto simp add: where_clause_def Let_def split: if_splits jv.splits option.splits)
  then show ?thesis
  proof cases
    case none
    then show ?thesis by (simp add: par_Nil)
  next
    case eq
    have field: "parameterised ids 0 escapedField"
      by (rule par_id [OF assms(2) eq(1)])
    have "parameterised ids (0 + (0 + (0 + Suc 0)))
        ('' WHERE '' @ escapedField @ '' = '' @ ''?'')"
      by (intro par_append par_keywords field par_mark)
    then show ?thesis by (simp add: eq)
  next
    case hasSome
    have field: "parameterised ids 0 escapedField"
      by (rule par_id [OF assms(2) hasSome(1)])
    have "parameterised ids (Suc 0 * length (map (\<lambda>_. ''?'') vs)) (join '','' (map (\<lambda>_. ''?'') vs))"
      by (rule par_join) (auto simp add: par_keywords par_mark)
    then have "parameterised ids (0 + (0 + (0 + (Suc 0 * length (map (\<lambda>_. ''?'') vs) + 0))))
        ('' WHERE '' @ escapedField @ '' IN (''
              @ join '','' (map (\<lambda>_. ''?'') vs) @ '')'')"
      by (intro par_append par_keywords field)
    then show ?thesis unfolding hasSome(2,3) by (rule par_cong) simp
  qed
qed

lemma data_find_parameterised:
  assumes "post_data_find b = Execute sql params"
  shows "parameterised (identifiers b) (length params) sql"
proof -
  let ?ids = "identifiers b"
  from assms obtain escapedTable where t: "escapeId (collectionName b) = Some escapedTable"
    by (cases "escapeId (collectionName b)") (simp_all add: post_data_find_def split: if_splits)
  have tab: "parameterised (identifiers b) 0 escapedTable"
    by (rule par_id [OF identifiers_members(2) t])
  from assms t obtain condition ps orderBy where
    w: "where_clause (filter' b) = Inr (condition, ps)"
    and ob: "order_by (sort' b) = Some orderBy"
    and pag: "paginate b ((''SELECT * FROM '' @ escapedTable) @ condition @ orderBy, ps)
                = (sql, params)"
    by (auto simp add: post_data_find_def Let_def
          split: if_splits sum.splits option.splits prod.splits)
  have "parameterised ?ids ((0 + 0) + (length ps + 0))
      ((''SELECT * FROM '' @ escapedTable) @ condition @ orderBy)"
    by (intro par_append par_keywords tab identifiers_members
          where_clause_parameterised [OF w] order_by_parameterised [OF ob])
  then have "parameterised ?ids (length ps)
      ((''SELECT * FROM '' @ escapedTable) @ condition @ orderBy)"
    by (rule par_cong) simp
  with pag show ?thesis by (rule paginate_parameterised)
qed

lemma data_insert_parameterised:
  assumes "post_data_insert b = Execute sql params"
  shows "parameterised (identifiers b) (length params) sql"
proof -
  let ?ids = "identifiers b"
  from assms obtain escapedTable where t: "escapeId (collectionName b) = Some escapedTable"
    by (cases "escapeId (collectionName b)") (simp_all add: post_data_insert_def Let_def split: if_splits)
  have tab: "parameterised (identifiers b) 0 escapedTable"
    by (rule par_id [OF identifiers_members(2) t])
  let ?es = "entries (or_else (item b) (data b))"
  have sql: "sql = ''INSERT INTO '' @ escapedTable @ '' (''
      @ join '', '' (map (\<lambda>kv. quoteId (fst kv)) ?es)
      @ '') VALUES ('' @ join '', '' (replicate (length ?es) ''?'') @ '')''"
    and params: "params = map snd ?es"
    using assms t
    by (auto simp add: post_data_insert_def Let_def insert_loop_start split: if_splits)
  have names: "parameterised ?ids (0 * length (map (\<lambda>kv. quoteId (fst kv)) ?es))
      (join '', '' (map (\<lambda>kv. quoteId (fst kv)) ?es))"
  proof (rule par_join)
    show "parameterised ?ids 0 '', ''" by (rule par_keywords)
  next
    fix x assume "x \<in> set (map (\<lambda>kv. quoteId (fst kv)) ?es)"
    then obtain kv where kv: "kv \<in> set ?es" and x: "x = quoteId (fst kv)" by auto
    from kv have "JStr (fst kv) \<in> ?ids"
      using identifiers_members(7) [of b] by (auto dest: key_identifier)
    then show "parameterised ?ids 0 x" unfolding x by (rule par_key)
  qed
  have marks: "parameterised ?ids (Suc 0 * length (replicate (length ?es) ''?''))
      (join '', '' (replicate (length ?es) ''?''))"
    by (rule par_join) (auto simp add: par_keywords par_mark)
  have "parameterised ?ids (0 + (0 + (0 + (0 * length (map (\<lambda>kv. quoteId (fst kv)) ?es)
        + (0 + (Suc 0 * length (replicate (length ?es) ''?'') + 0))))))
      (''INSERT INTO '' @ escapedTable @ '' (''
      @ join '', '' (map (\<lambda>kv. quoteId (fst kv)) ?es)
      @ '') VALUES ('' @ join '', '' (replicate (length ?es) ''?'') @ '')'')"
    by (intro par_append par_keywords tab names marks)
  then show ?thesis unfolding sql by (rule par_cong) (simp add: params)
qed

lemma data_remove_parameterised:
  assumes "post_data_remove b = Execute sql params"
  shows "parameterised (identifiers b) (length params) sql"
proof -
  from assms obtain escapedTable where t: "escapeId (collectionName b) = Some escapedTable"
    by (cases "escapeId (collectionName b)") (simp_all add: post_data_remove_def split: if_splits)
  have tab: "parameterised (identifiers b) 0 escapedTable"
    by (rule par_id [OF identifiers_members(2) t])
  have sql: "sql = ''DELETE FROM '' @ escapedTable @ '' WHERE _id = '' @ ''?''"
    and params: "params = [itemId b]"
    using assms t by (auto simp add: post_data_remove_def Let_def split: if_splits)
  have "parameterised (identifiers b) (0 + (0 + (0 + Suc 0)))
      (''DELETE FROM '' @ escapedTable @ '' WHERE _id = '' @ ''?'')"
    by (intro par_append par_keywords tab par_mark)
  then show ?thesis unfolding sql by (rule par_cong) (simp add: params)
qed

lemma length_without_index:
  "distinct ks \<Longrightarrow> length ks = length vs \<Longrightarrow>
     length (without_index (indexOf ks k) vs) = length (filter (\<lambda>key. key \<noteq> k) ks)"
proof -
  assume d: "distinct ks" and l: "length ks = length vs"
  have "distinct (map fst (zip ks vs))" using d l by simp
  then have "without_index (indexOf (map fst (zip ks vs)) k) (map snd (zip ks vs))
      = map snd (filter (\<lambda>kv. fst kv \<noteq> k) (zip ks vs))"
    by (rule without_index_of_key)
  then have "length (without_index (indexOf ks k) vs) = length (filter (\<lambda>kv. fst kv \<noteq> k) (zip ks vs))"
    using l by simp
  also have "\<dots> = length (filter (\<lambda>key. key \<noteq> k) (map fst (zip ks vs)))"
    by (simp add: filter_keys)
  finally show ?thesis using l by simp
qed

lemma data_update_parameterised:
  assumes "post_data_update b = Execute sql params" and "distinct (keys (item b))"
  shows "parameterised (identifiers b) (length params) sql"
proof -
  let ?ids = "identifiers b"
  from assms(1) obtain escapedTable where t: "escapeId (collectionName b) = Some escapedTable"
    by (cases "escapeId (collectionName b)") (simp_all add: post_data_update_def split: if_splits)
  have tab: "parameterised (identifiers b) 0 escapedTable"
    by (rule par_id [OF identifiers_members(2) t])
  let ?others = "filter (\<lambda>key. key \<noteq> ''_id'') (keys (item b))"
  have sql: "sql = ''UPDATE '' @ escapedTable @ '' SET ''
      @ join '', '' (map (\<lambda>key. quoteId key @ '' = '' @ ''?'') ?others)
      @ '' WHERE _id = '' @ ''?''"
    and params: "params = without_index (indexOf (keys (item b)) ''_id'') (object_values (item b))
                    @ [property (item b) ''_id'']"
    using assms(1) t by (auto simp add: post_data_update_def Let_def split: if_splits)
  have len: "length params = length ?others + 1"
    unfolding params using length_without_index [OF assms(2), of "object_values (item b)" "''_id''"]
    by (simp add: keys_def object_values_def)
  have sets: "parameterised ?ids (Suc 0 * length (map (\<lambda>key. quoteId key @ '' = '' @ ''?'') ?others))
      (join '', '' (map (\<lambda>key. quoteId key @ '' = '' @ ''?'') ?others))"
  proof (rule par_join)
    show "parameterised ?ids 0 '', ''" by (rule par_keywords)
  next
    fix x assume "x \<in> set (map (\<lambda>key. quoteId key @ '' = '' @ ''?'') ?others)"
    then obtain key where key: "key \<in> set (keys (item b))"
      and x: "x = quoteId key @ '' = '' @ ''?''" by auto
    from key have "JStr key \<in> ?ids"
      using identifiers_members(5) [of b] by (auto simp add: field_names_def)
    then have "parameterised ?ids (0 + (0 + Suc 0)) (quoteId key @ '' = '' @ ''?'')"
      by (intro par_append par_key par_keywords par_mark)
    then show "parameterised ?ids (Suc 0) x" by (simp add: x)
  qed
  have "parameterised ?ids (0 + (0 + (0 + (Suc 0 * length (map (\<lambda>key. quoteId key @ '' = '' @ ''?'') ?others)
        + (0 + Suc 0)))))
      (''UPDATE '' @ escapedTable @ '' SET ''
      @ join '', '' (map (\<lambda>key. quoteId key @ '' = '' @ ''?'') ?others)
      @ '' WHERE _id = '' @ ''?'')"
    by (intro par_append par_keywords tab par_mark sets)
  then show ?thesis unfolding sql by (rule par_cong) (simp add: len)
qed

lemma countSql_parameterised:
  assumes "countSql b = Some sql"
  shows "parameterised (identifiers b) 0 sql"
proof -
  from assms obtain escapedTable where t: "escapeId (collectionName b) = Some escapedTable"
    and sql: "sql = ''SELECT COUNT(*) AS totalCount FROM '' @ escapedTable"
    by (auto simp add: countSql_def)
  have tab: "parameterised (identifiers b) 0 escapedTable"
    by (rule par_id [OF identifiers_members(2) t])
  have "parameterised (identifiers b) (0 + 0)
      (''SELECT COUNT(*) AS totalCount FROM '' @ escapedTable)"
    by (intro par_append par_keywords tab)
  then show ?thesis by (simp add: sql)
qed

lemma keywords_have_no_marks:
  "\<forall>k\<in>set sql_keywords. CHR ''?'' \<notin> set k \<and> CHR ''`'' \<notin> set k"
  by (simp add: sql_keywords_def)

lemma falsy_no_entries: "\<not> truthy v \<Longrightarrow> entries v = []"
  by (cases v) (simp_all add: indexed_def)

lemma paginate_keeps_params:
  "paginate b (sql0, ps0) = (sql, params) \<Longrightarrow> set ps0 \<subseteq> set params"
  by (auto simp add: paginate_def split: if_splits)

lemma items_find_values:
  assumes "post_items_find b = Execute sql params"
  shows "set (object_values (filter' b)) \<subseteq> set params"
proof (cases "truthy (filter' b)")
  case True
  with assms show ?thesis
    by (auto simp add: post_items_find_def Let_def split: if_splits option.splits)
next
  case False
  then show ?thesis by (simp add: object_values_def falsy_no_entries)
qed

lemma data_count_values:
  assumes "post_data_count b = Execute sql params"
  shows "set (object_values (filter' b)) \<subseteq> set params"
proof (cases "truthy (filter' b) \<and> keys (filter' b) \<noteq> []")
  case True
  with assms show ?thesis
    by (auto simp add: post_data_count_def Let_def split: if_splits option.splits)
next
  case False
  then have "entries (filter' b) = []" by (auto simp add: keys_def falsy_no_entries)
  then show ?thesis by (simp add: object_values_def)
qed

lemma data_find_v1_values:
  assumes "post_data_find_v1 b = Execute sql params"
  shows "set (object_values (filter' b)) \<subseteq> set params"
proof (cases "truthy (filter' b) \<and> keys (filter' b) \<noteq> []")
  case True
  with assms obtain sql0 where "paginate b (sql0, object_values (filter' b)) = (sql, params)"
    by (auto simp add: post_data_find_v1_def Let_def split: if_splits option.splits prod.splits)
  then show ?thesis by (rule paginate_keeps_params)
next
  case False
  then have "entries (filter' b) = []" by (auto simp add: keys_def falsy_no_entries)
  then show ?thesis by (simp add: object_values_def)
qed

lemma data_find_values:
  assumes "post_data_find b = Execute sql params"
  shows "(property (filter' b) ''operator'' = JStr ''$eq'' \<longrightarrow>
            property (filter' b) ''value'' \<in> set params)
       \<and> (\<forall>vs. property (filter' b) ''operator'' = JStr ''$hasSome''
                \<and> property (filter' b) ''value'' = JArr vs \<longrightarrow> set vs \<subseteq> set params)"
proof -
  from assms obtain condition ps sql0 where
    w: "where_clause (filter' b) = Inr (condition, ps)"
    and pag: "paginate b (sql0, ps) = (sql, params)"
    by (auto simp add: post_data_find_def Let_def
          split: if_splits sum.splits option.splits prod.splits)
  from pag have sub: "set ps \<subseteq> set params" by (rule paginate_keeps_params)
  have nonempty: "property (filter' b) ''operator'' \<noteq> Undefined \<Longrightarrow>
      truthy (filter' b) \<and> keys (filter' b) \<noteq> []"
    by (cases "filter' b") (auto simp add: keys_def)
  show ?thesis
  proof (intro conjI impI allI)
    assume op: "property (filter' b) ''operator'' = JStr ''$eq''"
    with nonempty w have "ps = [property (filter' b) ''value'']"
      by (auto simp add: where_clause_def Let_def split: if_splits option.splits)
    with sub show "property (filter' b) ''value'' \<in> set params" by simp
  next
    fix vs
    assume op: "property (filter' b) ''operator'' = JStr ''$hasSome''
        \<and> property (filter' b) ''value'' = JArr vs"
    with nonempty w have "ps = vs"
      by (auto simp add: where_clause_def Let_def split: if_splits option.splits)
    with sub show "set vs \<subseteq> set params" by simp
  qed
qed

lemma data_insert_values:
  assumes "post_data_insert b = Execute sql params"
  shows "params = object_values (or_else (item b) (data b))"
  using assms
  by (auto simp add: post_data_insert_def Let_def insert_loop_start object_values_def
        split: if_splits option.splits)

lemma lookup_distinct:
  "distinct (map fst kvs) \<Longrightarrow> (k, v) \<in> set kvs \<Longrightarrow> lookup kvs k = v"
  by (induction kvs) (auto simp add: rev_image_eqI)

lemma data_update_values:
  assumes "post_data_update b = Execute sql params" and "distinct (keys (item b))"
  shows "set (object_values (item b)) \<subseteq> set params"
proof -
  from assms(1) have cn: "truthy (collectionName b)"
    and id: "truthy (property (item b) ''_id'')"
    by (auto simp add: post_data_update_def split: if_splits)
  from assms(1) obtain escapedTable where e: "escapeId (collectionName b) = Some escapedTable"
    by (cases "escapeId (collectionName b)") (simp_all add: post_data_update_def split: if_splits)
  from id obtain kvs where item: "item b = JObj kvs" by (cases "item b") auto
  with assms(2) have d: "distinct (map fst kvs)" by (simp add: keys_def)
  from id item have t: "truthy (lookup kvs ''_id'')" by simp
  from data_update_plan [OF cn item d t e] assms(1)
  have params: "params = map snd (filter (\<lambda>kv. fst kv \<noteq> ''_id'') kvs) @ [lookup kvs ''_id'']"
    by (auto split: if_splits)
  have "snd kv \<in> set params" if "kv \<in> set kvs" for kv
  proof (cases "fst kv = ''_id''")
    case True
    with that have "(''_id'', snd kv) \<in> set kvs" by (metis prod.collapse)
    with d have "lookup kvs ''_id'' = snd kv" by (rule lookup_distinct)
    then show ?thesis by (simp add: params)
  next
    case False
    with that show ?thesis by (auto simp add: params)
  qed
  then show ?thesis by (auto simp add: item object_values_def)
qed

lemma data_remove_values:
  assumes "post_data_remove b = Execute sql params"
  shows "params = [itemId b]"
  using assms by (auto simp add: post_data_remove_def Let_def split: if_splits option.splits)

text \<open>
  Claim C1: for each handler of the structured CRUD surface (items/find, data/count, both
  data/find handlers with their count statement, data/insert, data/update, data/remove),
  whenever the handler builds a statement, its text consists only of fixed SQL fragments,
  of collection and field identifiers of the request put through \<^verbatim>\<open>mysql.escapeId\<close>, and
  of placeholders, one placeholder per positional parameter; and the values of the filter
  or payload are among the positional parameters. No fixed fragment contains a
  placeholder or a backtick. For data/update the keys of the item are distinct, as those
  of a JavaScript object are. The only identifier in a statement that is not escaped is
  the constant \<^verbatim>\<open>_id\<close> of the fragment \<^verbatim>\<open>WHERE _id =\<close>, which does not come from the
  request.
\<close>

theorem crud_statements_are_parameterised:
  "(\<forall>k\<in>set sql_keywords. CHR ''?'' \<notin> set k \<and> CHR ''`'' \<notin> set k)
   \<and> (\<forall>sql params. post_items_find b = Execute sql params \<longrightarrow>
          parameterised (identifiers b) (length params) sql
        \<and> set (object_values (filter' b)) \<subseteq> set params)
   \<and> (\<forall>sql params. post_data_count b = Execute sql params \<longrightarrow>
          parameterised (identifiers b) (length params) sql
        \<and> set (object_values (filter' b)) \<subseteq> set params)
   \<and> (\<forall>sql params. post_data_find_v1 b = Execute sql params \<longrightarrow>
          parameterised (identifiers b) (length params) sql
        \<and> set (object_values (filter' b)) \<subseteq> set params)
   \<and> (\<forall>sql params. post_data_find b = Execute sql params \<longrightarrow>
          parameterised (identifiers b) (length params) sql
        \<and> (property (filter' b) ''operator'' = JStr ''$eq'' \<longrightarrow>
              property (filter' b) ''value'' \<in> set params)
        \<and> (\<forall>vs. property (filter' b) ''operator'' = JStr ''$hasSome''
                  \<and> property (filter' b) ''value'' = JArr vs \<longrightarrow> set vs \<subseteq> set params))
   \<and> (\<forall>sql. countSql b = Some sql \<longrightarrow> parameterised (identifiers b) 0 sql)
   \<and> (\<forall>sql params. post_data_insert b = Execute sql params \<longrightarrow>
          parameterised (identifiers b) (length params) sql
        \<and> params = object_values (or_else (item b) (data b)))
   \<and> (\<forall>sql params. distinct (keys (item b)) \<and> post_data_update b = Execute sql params \<longrightarrow>
          parameterised (identifiers b) (length params) sql
        \<and> set (object_values (item b)) \<subseteq> set params)
   \<and> (\<forall>sql params. post_data_remove b = Execute sql params \<longrightarrow>
          parameterised (identifiers b) (length params) sql
        \<and> params = [itemId b])"
proof (intro conjI allI impI)
  show "\<forall>k\<in>set sql_keywords. CHR ''?'' \<notin> set k \<and> CHR ''`'' \<notin> set k"
    by (rule keywords_have_no_marks)
next
  fix sql assume "countSql b = Some sql"
  then show "parameterised (identifiers b) 0 sql"
    by (rule countSql_parameterised)
next
  fix sql params assume "post_items_find b = Execute sql params"
  then show "parameterised (identifiers b) (length params) sql"
    and "set (object_values (filter' b)) \<subseteq> set params"
    by (rule items_find_parameterised, rule items_find_values)
next
  fix sql params assume "post_data_count b = Execute sql params"
  then show "parameterised (identifiers b) (length params) sql"
    and "set (object_values (filter' b)) \<subseteq> set params"
    by (rule data_count_parameterised, rule data_count_values)
next
  fix sql params assume "post_data_find_v1 b = Execute sql params"
  then show "parameterised (identifiers b) (length params) sql"
    and "set (object_values (filter' b)) \<subseteq> set params"
    by (rule data_find_v1_parameterised, rule data_find_v1_values)
next
  fix sql params assume e: "post_data_find b = Execute sql params"
  then show "parameterised (identifiers b) (length params) sql"
    by (rule data_find_parameterised)
  {
    assume "property (filter' b) ''operator'' = JStr ''$eq''"
    with data_find_values [OF e] show "property (filter' b) ''value'' \<in> set params"
      by blast
  }
  {
    fix vs
    assume "property (filter' b) ''operator'' = JStr ''$hasSome''
        \<and> property (filter' b) ''value'' = JArr vs"
    with data_find_values [OF e] show "set vs \<subseteq> set params"
      by blast
  }
next
  fix sql params assume "post_data_insert b = Execute sql params"
  then show "parameterised (identifiers b) (length params) sql"
    and "params = object_values (or_else (item b) (data b))"
    by (rule data_insert_parameterised, rule data_insert_values)
next
  fix sql params assume "distinct (keys (item b)) \<and> post_data_update b = Execute sql params"
  then have d: "distinct (keys (item b))" and e: "post_data_update b = Execute sql params"
    by simp_all
  show "parameterised (identifiers b) (length params) sql"
    by (rule data_update_parameterised [OF e d])
  show "set (object_values (item b)) \<subseteq> set params"
    by (rule data_update_values [OF e d])
next
  fix sql params assume "post_data_remove b = Execute sql params"
  then show "parameterised (identifiers b) (length params) sql"
    and "params = [itemId b]"
    by (rule data_remove_parameterised, rule data_remove_values)
qed

text \<open>
  Claim C1 at an items/find request whose table name and filter key contain backticks
  and whose filter value is a fragment of SQL: the backticks are doubled inside the
  escaped identifiers and the value appears only among the parameters.
\<close>

theorem crud_statements_are_parameterised_witness:
  "post_items_find hostile_example =
     Execute ''SELECT * FROM `a``b` WHERE `x``; DROP TABLE t; --` = ? LIMIT ?''
             [JStr ''1 OR 1=1'', JNum 5]
   \<and> parameterised (identifiers hostile_example) 2
        ''SELECT * FROM `a``b` WHERE `x``; DROP TABLE t; --` = ? LIMIT ?''"
proof -
  have e: "post_items_find hostile_example =
     Execute ''SELECT * FROM `a``b` WHERE `x``; DROP TABLE t; --` = ? LIMIT ?''
             [JStr ''1 OR 1=1'', JNum 5]"
    by (simp add: post_items_find_def hostile_example_def empty_body_def conditions_def
          object_values_def quoteId_def replaceAll_def)
  from crud_statements_are_parameterised [of hostile_example] e
  have "parameterised (identifiers hostile_example) (length [JStr ''1 OR 1=1'', JNum 5])
        ''SELECT * FROM `a``b` WHERE `x``; DROP TABLE t; --` = ? LIMIT ?''"
    by blast
  with e show ?thesis by (simp add: numeral_2_eq_2)
qed


end
